theory Spec2Isabelle
  imports Complex_Main
begin

section \<open>Values of the schema\<close>

text \<open>
  The claim recovery workflow is a PostgreSQL schema: tables with CHECK constraints and
  row triggers written in PL/pgSQL. A table is a map from its key to a row, a row is a
  record of the columns the triggers read or write, a nullable column is an \<open>option\<close>,
  a column restricted by \<open>CHECK (c IN (...))\<close> is a datatype, and a statement either
  fails with an error (the transaction is rolled back, nothing is stored) or returns
  the new database.

  A \<open>decimal(p,2)\<close> amount is held as its number of hundredths (paise), an
  \<open>agent_fee_percentage decimal(5,2)\<close> as hundredths of a percent, the generated
  \<open>success_rate decimal(5,4)\<close> as ten-thousandths. Products and sums of \<open>numeric\<close>
  values are exact in PostgreSQL; a quotient carries at least sixteen significant
  digits and is taken as exact here, so each \<open>ROUND\<close> and each store into a
  \<open>decimal(p,s)\<close> column rounds the exact value once, half away from zero.
\<close>

type_synonym uuid = nat
type_synonym timestamp = nat
type_synonym date = int

datatype error =
    NotNullViolation string
  | CheckViolation string
  | UniqueViolation string
  | ForeignKeyViolation string
  | NumericFieldOverflow string
  | IntegerOutOfRange
  | DivisionByZero

text \<open>\<open>round_half_away n d\<close> is the integer nearest to \<open>n / d\<close> for \<open>0 < d\<close>, ties going
  away from zero: what \<open>ROUND\<close> and a cast to fewer decimals do on \<open>numeric\<close>.\<close>

definition round_half_away :: "int \<Rightarrow> int \<Rightarrow> int" where
  "round_half_away n d =
     (if 0 \<le> n then (2 * n + d) div (2 * d) else - ((2 * (- n) + d) div (2 * d)))"

text \<open>A \<open>decimal(12,2)\<close> column holds fewer than \<open>10^10\<close> units, a \<open>decimal(14,2)\<close>
  column fewer than \<open>10^12\<close>, an \<open>int\<close> column a 32-bit signed integer.\<close>

definition fits_12_2 :: "int \<Rightarrow> bool" where
  "fits_12_2 v = (\<bar>v\<bar> < 1000000000000)"

definition fits_14_2 :: "int \<Rightarrow> bool" where
  "fits_14_2 v = (\<bar>v\<bar> < 100000000000000)"

definition fits_int4 :: "int \<Rightarrow> bool" where
  "fits_int4 v = (- 2147483648 \<le> v \<and> v \<le> 2147483647)"

text \<open>A CHECK constraint passes when its expression is NULL.\<close>

fun sql_check :: "('a \<Rightarrow> bool) \<Rightarrow> 'a option \<Rightarrow> bool" where
  "sql_check P None = True"
| "sql_check P (Some v) = P v"

text \<open>The first constraint of a list that does not hold, if any.\<close>

fun first_violation :: "(bool \<times> error) list \<Rightarrow> error option" where
  "first_violation [] = None"
| "first_violation ((ok, e) # cs) = (if ok then first_violation cs else Some e)"

datatype claim_status_value =
    submitted | under_review | pending_documents | approved | partially_approved
  | denied | appealed | recovered | written_off

datatype appeal_status_value =
    draft | appeal_submitted | appeal_under_review | additional_info_requested
  | accepted | partially_accepted | rejected | withdrawn

datatype appeal_type_value = reconsideration | review | grievance

datatype generated_by_value = ai_agent | human | hybrid

datatype payment_status_value = pending | processed | failed | disputed

section \<open>Rows and the database\<close>

record hospital =
  recovery_fee_percentage :: "int option"

record claim =
  payer_id :: uuid
  claimed_amount :: int
  approved_amount :: "int option"
  paid_amount :: "int option"
  claim_status :: "claim_status_value option"
  last_status_update :: timestamp
  claim_updated_at :: timestamp

record claim_denial =
  denial_claim_id :: uuid
  denial_amount :: int

record appeal =
  appeal_claim_id :: uuid
  appeal_level :: "int option"
  appeal_type :: appeal_type_value
  generated_by :: "generated_by_value option"
  appeal_status :: "appeal_status_value option"
  outcome_amount :: "int option"
  appeal_updated_at :: timestamp

text \<open>\<open>recovery_amount\<close> is NOT NULL: a row without it is rejected whatever the
  trigger computes, so the column is not an option. The three share columns are NOT
  NULL as well, but the row handed to the BEFORE INSERT trigger may still lack them.\<close>

record recovery_transaction =
  hospital_id :: uuid
  recovery_claim_id :: uuid
  recovery_amount :: int
  recovery_date :: date
  agent_fee_percentage :: "int option"
  agent_fee_amount :: "int option"
  hospital_amount :: "int option"
  payment_status :: "payment_status_value option"
  payment_date :: "date option"
  recovery_updated_at :: timestamp

text \<open>A row of \<open>payer_knowledge_graph\<close>. Its key \<open>(payer_id, pattern_type,
  pattern_key)\<close> is the key of the table below; the only pattern type the triggers
  write is \<open>appeal_success_factor\<close>. \<open>pattern_value\<close> is the JSON object built from
  the appeal's type, generator and status.\<close>

record knowledge_pattern =
  pattern_value :: "appeal_type_value \<times> generated_by_value option \<times> appeal_status_value"
  occurrence_count :: int
  success_count :: int
  avg_recovery_amount :: int
  total_recovery_amount :: int
  confidence_level :: int
  last_observed_at :: timestamp
  kg_updated_at :: timestamp

record db =
  clock :: timestamp
  hospitals :: "uuid \<rightharpoonup> hospital"
  claims :: "uuid \<rightharpoonup> claim"
  claim_denials :: "uuid \<rightharpoonup> claim_denial"
  appeals :: "uuid \<rightharpoonup> appeal"
  recovery_transactions :: "uuid \<rightharpoonup> recovery_transaction"
  payer_knowledge_graph :: "(uuid \<times> string) \<rightharpoonup> knowledge_pattern"

section \<open>Recovery transactions and the revenue share\<close>

text \<open>
  \<^verbatim>\<open>calculate_revenue_share\<close>, BEFORE INSERT on \<open>recovery_transactions\<close>:
  a missing fee percentage is read from the hospital, the fee is
  \<^verbatim>\<open>ROUND((recovery_amount * agent_fee_percentage / 100)::numeric, 2)\<close> and the hospital
  amount is the rest. With the amount in hundredths and the percentage in hundredths
  of a percent the fee in hundredths is \<open>amount * percentage / 10000\<close>, rounded.
  Both assignments cast to \<open>decimal(12,2)\<close>.
\<close>

definition calculate_revenue_share :: "db \<Rightarrow> recovery_transaction \<Rightarrow> error + recovery_transaction" where
  "calculate_revenue_share d new =
     (let pct = (case agent_fee_percentage new of
                   Some p \<Rightarrow> Some p
                 | None \<Rightarrow> (case hospitals d (hospital_id new) of
                              None \<Rightarrow> None
                            | Some h \<Rightarrow> recovery_fee_percentage h));
          fee = map_option (\<lambda>p. round_half_away (recovery_amount new * p) 10000) pct;
          rest = map_option (\<lambda>f. recovery_amount new - f) fee
      in if \<not> sql_check fits_12_2 fee then Inl (NumericFieldOverflow ''agent_fee_amount'')
         else if \<not> sql_check fits_12_2 rest then Inl (NumericFieldOverflow ''hospital_amount'')
         else Inr (new\<lparr>agent_fee_percentage := pct, agent_fee_amount := fee,
                       hospital_amount := rest\<rparr>))"

text \<open>The NOT NULL and CHECK constraints of \<open>recovery_transactions\<close> on the columns
  above, among them \<^verbatim>\<open>check_amounts_sum\<close>.\<close>

definition recovery_transaction_violation :: "recovery_transaction \<Rightarrow> error option" where
  "recovery_transaction_violation r = first_violation
     [(fits_12_2 (recovery_amount r), NumericFieldOverflow ''recovery_amount''),
      (agent_fee_percentage r \<noteq> None, NotNullViolation ''agent_fee_percentage''),
      (agent_fee_amount r \<noteq> None, NotNullViolation ''agent_fee_amount''),
      (hospital_amount r \<noteq> None, NotNullViolation ''hospital_amount''),
      (0 < recovery_amount r, CheckViolation ''recovery_transactions_recovery_amount_check''),
      (sql_check (\<lambda>p. 0 \<le> p \<and> p \<le> 5000) (agent_fee_percentage r),
         CheckViolation ''recovery_transactions_agent_fee_percentage_check''),
      (sql_check (\<lambda>f. 0 \<le> f) (agent_fee_amount r),
         CheckViolation ''recovery_transactions_agent_fee_amount_check''),
      (sql_check (\<lambda>h. 0 \<le> h) (hospital_amount r),
         CheckViolation ''recovery_transactions_hospital_amount_check''),
      (sql_check (\<lambda>f. sql_check (\<lambda>h. f + h = recovery_amount r) (hospital_amount r))
         (agent_fee_amount r), CheckViolation ''check_amounts_sum''),
      (sql_check (\<lambda>p. recovery_date r \<le> p) (payment_date r),
         CheckViolation ''check_payment_date'')]"

section \<open>Claims\<close>

text \<open>The CHECK constraints of \<open>claims\<close> on the columns above, after the casts of
  the amounts to \<open>decimal(12,2)\<close>.\<close>

definition claim_violation :: "claim \<Rightarrow> error option" where
  "claim_violation c = first_violation
     [(fits_12_2 (claimed_amount c), NumericFieldOverflow ''claimed_amount''),
      (sql_check fits_12_2 (approved_amount c), NumericFieldOverflow ''approved_amount''),
      (sql_check fits_12_2 (paid_amount c), NumericFieldOverflow ''paid_amount''),
      (0 \<le> claimed_amount c, CheckViolation ''claims_claimed_amount_check''),
      (sql_check (\<lambda>a. 0 \<le> a) (approved_amount c), CheckViolation ''claims_approved_amount_check''),
      (sql_check (\<lambda>p. 0 \<le> p) (paid_amount c), CheckViolation ''claims_paid_amount_check''),
      (sql_check (\<lambda>a. a \<le> claimed_amount c) (approved_amount c),
         CheckViolation ''check_approved_lte_claimed''),
      (sql_check (\<lambda>p. p \<le> claimed_amount c) (paid_amount c),
         CheckViolation ''check_paid_lte_claimed'')]"

text \<open>\<^verbatim>\<open>update_claim_status_timestamp\<close>, BEFORE UPDATE on \<open>claims\<close>.\<close>

definition update_claim_status_timestamp :: "timestamp \<Rightarrow> claim \<Rightarrow> claim \<Rightarrow> claim" where
  "update_claim_status_timestamp now old new =
     (if claim_status old \<noteq> claim_status new then new\<lparr>last_status_update := now\<rparr> else new)"

text \<open>The row an UPDATE of \<open>claims\<close> stores for the assigned row \<open>x\<close>: the two
  BEFORE UPDATE triggers \<^verbatim>\<open>update_claim_status_date\<close> and
  \<^verbatim>\<open>update_claims_updated_at\<close> run on it, in the order of their names.\<close>

definition new_claim_row :: "db \<Rightarrow> claim \<Rightarrow> claim \<Rightarrow> claim" where
  "new_claim_row d old x =
     (update_claim_status_timestamp (clock d) old x)\<lparr>claim_updated_at := clock d\<rparr>"

text \<open>\<^verbatim>\<open>UPDATE claims SET ... WHERE id = cid AND cond\<close>: no row, or a row that fails
  the condition, leaves the table as it is; otherwise the new row is checked against
  the constraints and stored.\<close>

definition update_claims :: "db \<Rightarrow> uuid \<Rightarrow> (claim \<Rightarrow> bool) \<Rightarrow> (claim \<Rightarrow> claim) \<Rightarrow> error + db" where
  "update_claims d cid cond set_cols =
     (case claims d cid of
        None \<Rightarrow> Inr d
      | Some old \<Rightarrow>
          if \<not> cond old then Inr d
          else
            (case claim_violation (new_claim_row d old (set_cols old)) of
               Some e \<Rightarrow> Inl e
             | None \<Rightarrow>
                 Inr (d\<lparr>claims := (claims d)(cid \<mapsto> new_claim_row d old (set_cols old))\<rparr>)))"

text \<open>
  \<^verbatim>\<open>update_claim_on_recovery\<close>, AFTER INSERT OR UPDATE OF payment_status on
  \<open>recovery_transactions\<close>. The right-hand sides of SET read the old row; a NULL
  \<open>paid_amount\<close> stays NULL and makes the CASE take its ELSE branch.
\<close>

definition update_claim_on_recovery :: "db \<Rightarrow> recovery_transaction \<Rightarrow> error + db" where
  "update_claim_on_recovery d new =
     (if payment_status new = Some processed then
        update_claims d (recovery_claim_id new) (\<lambda>c. True)
          (\<lambda>c. c\<lparr>paid_amount := map_option (\<lambda>p. p + recovery_amount new) (paid_amount c),
                 claim_status :=
                   (case paid_amount c of
                      None \<Rightarrow> claim_status c
                    | Some p \<Rightarrow> if claimed_amount c \<le> p + recovery_amount new
                                then Some recovered else claim_status c)\<rparr>)
      else Inr d)"

text \<open>\<^verbatim>\<open>INSERT INTO recovery_transactions\<close> of the row \<open>new\<close> under the primary key
  \<open>i\<close>: the BEFORE INSERT trigger, the constraints, the primary key, the foreign
  keys, then the AFTER trigger with its \<^verbatim>\<open>WHEN (NEW.payment_status = 'processed')\<close>.\<close>

definition insert_recovery_transaction :: "db \<Rightarrow> uuid \<Rightarrow> recovery_transaction \<Rightarrow> error + db" where
  "insert_recovery_transaction d i new =
     (case calculate_revenue_share d new of
        Inl e \<Rightarrow> Inl e
      | Inr r \<Rightarrow>
          (case recovery_transaction_violation r of
             Some e \<Rightarrow> Inl e
           | None \<Rightarrow>
               if recovery_transactions d i \<noteq> None
               then Inl (UniqueViolation ''recovery_transactions_pkey'')
               else if hospitals d (hospital_id r) = None
               then Inl (ForeignKeyViolation ''recovery_transactions_hospital_id_fkey'')
               else if claims d (recovery_claim_id r) = None
               then Inl (ForeignKeyViolation ''recovery_transactions_claim_id_fkey'')
               else
                 (let d1 = d\<lparr>recovery_transactions := (recovery_transactions d)(i \<mapsto> r)\<rparr>
                  in if payment_status r = Some processed
                     then update_claim_on_recovery d1 r else Inr d1)))"

text \<open>\<^verbatim>\<open>UPDATE recovery_transactions SET ... WHERE id = i\<close>, the updated row being
  \<open>new\<close>. \<^verbatim>\<open>calculate_revenue_share\<close> is a BEFORE INSERT trigger only; an update runs
  \<^verbatim>\<open>update_updated_at_column\<close>, the constraints, and the AFTER trigger when the SET
  list names \<open>payment_status\<close> (\<open>sets_payment_status\<close>) and the new status is
  \<open>processed\<close>, whatever the old status was.\<close>

definition update_recovery_transaction ::
    "db \<Rightarrow> uuid \<Rightarrow> recovery_transaction \<Rightarrow> bool \<Rightarrow> error + db" where
  "update_recovery_transaction d i new sets_payment_status =
     (case recovery_transactions d i of
        None \<Rightarrow> Inr d
      | Some old \<Rightarrow>
          (let r = new\<lparr>recovery_updated_at := clock d\<rparr>
           in case recovery_transaction_violation r of
                Some e \<Rightarrow> Inl e
              | None \<Rightarrow>
                  if hospitals d (hospital_id r) = None
                  then Inl (ForeignKeyViolation ''recovery_transactions_hospital_id_fkey'')
                  else if claims d (recovery_claim_id r) = None
                  then Inl (ForeignKeyViolation ''recovery_transactions_claim_id_fkey'')
                  else
                    (let d1 = d\<lparr>recovery_transactions := (recovery_transactions d)(i \<mapsto> r)\<rparr>
                     in if sets_payment_status \<and> payment_status r = Some processed
                        then update_claim_on_recovery d1 r else Inr d1)))"

text \<open>The exact-sum property of a stored row.\<close>

definition amounts_sum_ok :: "recovery_transaction \<Rightarrow> bool" where
  "amounts_sum_ok r =
     (case agent_fee_amount r of
        None \<Rightarrow> False
      | Some f \<Rightarrow> (case hospital_amount r of
                    None \<Rightarrow> False
                  | Some h \<Rightarrow> f + h = recovery_amount r))"

section \<open>The revenue share as the specification words it\<close>

text \<open>A \<open>decimal(p,2)\<close> value held as hundredths, read as a rational number.\<close>

definition decimal2 :: "int \<Rightarrow> rat" where
  "decimal2 v = of_int v / 100"

text \<open>Rounding to \<open>k\<close> decimal places, half away from zero.\<close>

definition round_half_away_from_zero :: "nat \<Rightarrow> rat \<Rightarrow> rat" where
  "round_half_away_from_zero k x = sgn x * of_int \<lfloor>\<bar>x\<bar> * 10 ^ k + 1 / 2\<rfloor> / 10 ^ k"

text \<open>The specification's \<open>split(recoveryAmount, feePercentage)\<close>:
  \<open>feeAmount = round(recoveryAmount * feePercentage / 100)\<close> to the minor unit,
  \<open>hospitalAmount = recoveryAmount - feeAmount\<close>.\<close>

definition spec_split :: "rat \<Rightarrow> rat \<Rightarrow> rat \<times> rat" where
  "spec_split recoveryAmount feePercentage =
     (let feeAmount = round_half_away_from_zero 2 (recoveryAmount * feePercentage / 100)
      in (feeAmount, recoveryAmount - feeAmount))"

section \<open>Denials and appeals\<close>

text \<open>\<^verbatim>\<open>auto_update_claim_status_on_denial\<close>, AFTER INSERT on \<open>claim_denials\<close>. The
  \<^verbatim>\<open>NOT IN\<close> of the WHERE clause is NULL, hence not true, for a NULL status.\<close>

definition auto_update_claim_status_on_denial :: "db \<Rightarrow> claim_denial \<Rightarrow> error + db" where
  "auto_update_claim_status_on_denial d new =
     update_claims d (denial_claim_id new)
       (\<lambda>c. case claim_status c of
               None \<Rightarrow> False
             | Some s \<Rightarrow> s \<noteq> appealed \<and> s \<noteq> recovered \<and> s \<noteq> written_off)
       (\<lambda>c. c\<lparr>claim_status := Some denied\<rparr>)"

definition insert_claim_denial :: "db \<Rightarrow> uuid \<Rightarrow> claim_denial \<Rightarrow> error + db" where
  "insert_claim_denial d i new =
     (if \<not> fits_12_2 (denial_amount new) then Inl (NumericFieldOverflow ''denial_amount'')
      else if \<not> 0 \<le> denial_amount new
      then Inl (CheckViolation ''claim_denials_denial_amount_check'')
      else if claim_denials d i \<noteq> None then Inl (UniqueViolation ''claim_denials_pkey'')
      else if claims d (denial_claim_id new) = None
      then Inl (ForeignKeyViolation ''claim_denials_claim_id_fkey'')
      else auto_update_claim_status_on_denial
             (d\<lparr>claim_denials := (claim_denials d)(i \<mapsto> new)\<rparr>) new)"

text \<open>The CHECK constraints of \<open>appeals\<close> on the columns above.\<close>

definition appeal_violation :: "appeal \<Rightarrow> error option" where
  "appeal_violation a = first_violation
     [(sql_check fits_12_2 (outcome_amount a), NumericFieldOverflow ''outcome_amount''),
      (sql_check (\<lambda>l. 1 \<le> l \<and> l \<le> 3) (appeal_level a),
         CheckViolation ''appeals_appeal_level_check''),
      (sql_check (\<lambda>v. 0 \<le> v) (outcome_amount a),
         CheckViolation ''appeals_outcome_amount_check'')]"

text \<open>The status of the OLD row of a trigger: NULL when the trigger runs for an
  INSERT, where there is no OLD row.\<close>

definition old_appeal_status :: "appeal option \<Rightarrow> appeal_status_value option" where
  "old_appeal_status old = (case old of None \<Rightarrow> None | Some a \<Rightarrow> appeal_status a)"

text \<open>
  \<^verbatim>\<open>auto_update_claim_status_on_appeal\<close>, AFTER INSERT OR UPDATE on \<open>appeals\<close>: two
  IF statements in sequence, each an unconditional UPDATE of the owning claim.
\<close>

definition auto_update_claim_status_on_appeal :: "db \<Rightarrow> appeal option \<Rightarrow> appeal \<Rightarrow> error + db" where
  "auto_update_claim_status_on_appeal d old new =
     (case (if appeal_status new = Some appeal_submitted \<and>
               (old_appeal_status old = None \<or> old_appeal_status old \<noteq> Some appeal_submitted)
            then update_claims d (appeal_claim_id new) (\<lambda>c. True)
                   (\<lambda>c. c\<lparr>claim_status := Some appealed\<rparr>)
            else Inr d) of
        Inl e \<Rightarrow> Inl e
      | Inr d1 \<Rightarrow>
          if (appeal_status new = Some accepted \<or> appeal_status new = Some partially_accepted) \<and>
             (old_appeal_status old = None \<or>
              (old_appeal_status old \<noteq> Some accepted \<and>
               old_appeal_status old \<noteq> Some partially_accepted))
          then update_claims d1 (appeal_claim_id new) (\<lambda>c. True)
                 (\<lambda>c. c\<lparr>claim_status := Some recovered,
                        approved_amount :=
                          (if appeal_status new = Some accepted
                           then Some (claimed_amount c) else outcome_amount new)\<rparr>)
          else Inr d1)"

section \<open>The payer knowledge graph\<close>

text \<open>The generated column \<open>success_rate\<close>, in ten-thousandths:
  \<^verbatim>\<open>CASE WHEN occurrence_count > 0 THEN ROUND(success_count / occurrence_count, 4) ELSE 0 END\<close>.
  A generated column is computed from the row at every insert and update.\<close>

definition success_rate :: "knowledge_pattern \<Rightarrow> int" where
  "success_rate k =
     (if 0 < occurrence_count k
      then round_half_away (success_count k * 10000) (occurrence_count k) else 0)"

definition knowledge_pattern_violation :: "knowledge_pattern \<Rightarrow> error option" where
  "knowledge_pattern_violation k = first_violation
     [(fits_int4 (occurrence_count k), IntegerOutOfRange),
      (fits_int4 (success_count k), IntegerOutOfRange),
      (fits_12_2 (avg_recovery_amount k), NumericFieldOverflow ''avg_recovery_amount''),
      (fits_14_2 (total_recovery_amount k), NumericFieldOverflow ''total_recovery_amount''),
      (\<bar>success_rate k\<bar> < 100000, NumericFieldOverflow ''success_rate''),
      (0 < occurrence_count k, CheckViolation ''payer_knowledge_graph_occurrence_count_check''),
      (0 \<le> success_count k, CheckViolation ''payer_knowledge_graph_success_count_check''),
      (0 \<le> avg_recovery_amount k,
         CheckViolation ''payer_knowledge_graph_avg_recovery_amount_check''),
      (0 \<le> total_recovery_amount k,
         CheckViolation ''payer_knowledge_graph_total_recovery_amount_check''),
      (0 \<le> confidence_level k \<and> confidence_level k \<le> 100,
         CheckViolation ''payer_knowledge_graph_confidence_level_check'')]"

text \<open>The text of an integer, for \<^verbatim>\<open>'appeal_level_' || NEW.appeal_level\<close>.\<close>

definition digit_char :: "nat \<Rightarrow> char" where
  "digit_char n = ''0123456789'' ! n"

fun nat_text :: "nat \<Rightarrow> string" where
  "nat_text n =
     (if n < 10 then [digit_char n] else nat_text (n div 10) @ [digit_char (n mod 10)])"

declare nat_text.simps [simp del]

definition int_text :: "int \<Rightarrow> string" where
  "int_text l = (if l < 0 then CHR ''-'' # nat_text (nat (- l)) else nat_text (nat l))"

text \<open>The key of the pattern an appeal of level \<open>l\<close> counts for: the payer and
  \<^verbatim>\<open>'appeal_level_' || l\<close>, under the pattern type \<open>appeal_success_factor\<close>.\<close>

definition appeal_level_key :: "uuid \<Rightarrow> int \<Rightarrow> uuid \<times> string" where
  "appeal_level_key payer l = (payer, ''appeal_level_'' @ int_text l)"

text \<open>The aggregator fires when the new status is one of \<open>accepted\<close>,
  \<open>partially_accepted\<close>, \<open>rejected\<close> and the old status is NULL or none of them.\<close>

definition final_status :: "appeal_status_value \<Rightarrow> bool" where
  "final_status s = (s = accepted \<or> s = partially_accepted \<or> s = rejected)"

definition reaches_final_status :: "appeal option \<Rightarrow> appeal \<Rightarrow> bool" where
  "reaches_final_status old new =
     ((case appeal_status new of None \<Rightarrow> False | Some s \<Rightarrow> final_status s) \<and>
      (case old_appeal_status old of None \<Rightarrow> True | Some s \<Rightarrow> \<not> final_status s))"

text \<open>
  \<^verbatim>\<open>update_knowledge_graph_from_appeal\<close>: one
  \<^verbatim>\<open>INSERT ... ON CONFLICT (payer_id, pattern_type, pattern_key) DO UPDATE\<close>.
  The payer is read from the owning claim; a NULL payer or a NULL key (from a NULL
  appeal level) violates NOT NULL. The integer additions are 32-bit, the average is
  cast to \<open>decimal(12,2)\<close>, the total to \<open>decimal(14,2)\<close>. \<open>pattern_value\<close> is set on
  insert only.
\<close>

definition update_knowledge_graph_from_appeal :: "db \<Rightarrow> appeal option \<Rightarrow> appeal \<Rightarrow> error + db" where
  "update_knowledge_graph_from_appeal d old new =
     (case appeal_status new of
        None \<Rightarrow> Inr d
      | Some s \<Rightarrow>
          if \<not> reaches_final_status old new then Inr d
          else
            (case claims d (appeal_claim_id new) of
               None \<Rightarrow> Inl (NotNullViolation ''payer_id'')
             | Some c \<Rightarrow>
                 (case appeal_level new of
                    None \<Rightarrow> Inl (NotNullViolation ''pattern_key'')
                  | Some l \<Rightarrow>
                      (let v_success_count_delta =
                             (if s = accepted \<or> s = partially_accepted then 1 else 0);
                           amount = (case outcome_amount new of None \<Rightarrow> 0 | Some v \<Rightarrow> v);
                           key = appeal_level_key (payer_id c) l
                       in case payer_knowledge_graph d key of
                            None \<Rightarrow>
                              (let k = \<lparr>pattern_value = (appeal_type new, generated_by new, s),
                                        occurrence_count = 1,
                                        success_count = v_success_count_delta,
                                        avg_recovery_amount = amount,
                                        total_recovery_amount = amount,
                                        confidence_level = 50,
                                        last_observed_at = clock d,
                                        kg_updated_at = clock d\<rparr>
                               in case knowledge_pattern_violation k of
                                    Some e \<Rightarrow> Inl e
                                  | None \<Rightarrow> Inr (d\<lparr>payer_knowledge_graph :=
                                                      (payer_knowledge_graph d)(key \<mapsto> k)\<rparr>))
                          | Some k0 \<Rightarrow>
                              if occurrence_count k0 + 1 = 0 then Inl DivisionByZero
                              else
                                (let k = k0\<lparr>occurrence_count := occurrence_count k0 + 1,
                                           success_count := success_count k0 + v_success_count_delta,
                                           avg_recovery_amount :=
                                             round_half_away
                                               (avg_recovery_amount k0 * occurrence_count k0 + amount)
                                               (occurrence_count k0 + 1),
                                           total_recovery_amount := total_recovery_amount k0 + amount,
                                           last_observed_at := clock d,
                                           kg_updated_at := clock d\<rparr>
                                 in case knowledge_pattern_violation k of
                                      Some e \<Rightarrow> Inl e
                                    | None \<Rightarrow> Inr (d\<lparr>payer_knowledge_graph :=
                                                        (payer_knowledge_graph d)(key \<mapsto> k)\<rparr>))))))"

text \<open>
  \<^verbatim>\<open>INSERT INTO appeals\<close>: the only AFTER INSERT trigger is
  \<^verbatim>\<open>trigger_update_claim_on_appeal\<close>; \<^verbatim>\<open>trigger_update_knowledge_from_appeal\<close> and
  \<^verbatim>\<open>trigger_notify_on_appeal_status\<close> are AFTER UPDATE triggers.
\<close>

definition insert_appeal :: "db \<Rightarrow> uuid \<Rightarrow> appeal \<Rightarrow> error + db" where
  "insert_appeal d i new =
     (case appeal_violation new of
        Some e \<Rightarrow> Inl e
      | None \<Rightarrow>
          if appeals d i \<noteq> None then Inl (UniqueViolation ''appeals_pkey'')
          else if claims d (appeal_claim_id new) = None
          then Inl (ForeignKeyViolation ''appeals_claim_id_fkey'')
          else auto_update_claim_status_on_appeal
                 (d\<lparr>appeals := (appeals d)(i \<mapsto> new)\<rparr>) None new)"

text \<open>
  \<^verbatim>\<open>UPDATE appeals SET ... WHERE id = i\<close>, the updated row being \<open>new\<close>: the BEFORE
  UPDATE trigger \<^verbatim>\<open>update_appeals_updated_at\<close>, the constraints, then the AFTER UPDATE
  triggers in the order of their names. \<^verbatim>\<open>trigger_notify_on_appeal_status\<close> comes
  first and only inserts into \<open>notifications\<close>, a table nothing here reads; it is
  left out. No trigger and no constraint compares the new status with the old one.
\<close>

definition update_appeal :: "db \<Rightarrow> uuid \<Rightarrow> appeal \<Rightarrow> error + db" where
  "update_appeal d i new =
     (case appeals d i of
        None \<Rightarrow> Inr d
      | Some old \<Rightarrow>
          (let a = new\<lparr>appeal_updated_at := clock d\<rparr>
           in case appeal_violation a of
                Some e \<Rightarrow> Inl e
              | None \<Rightarrow>
                  if claims d (appeal_claim_id a) = None
                  then Inl (ForeignKeyViolation ''appeals_claim_id_fkey'')
                  else
                    (case auto_update_claim_status_on_appeal
                            (d\<lparr>appeals := (appeals d)(i \<mapsto> a)\<rparr>) (Some old) a of
                       Inl e \<Rightarrow> Inl e
                     | Inr d2 \<Rightarrow> update_knowledge_graph_from_appeal d2 (Some old) a)))"

section \<open>Events\<close>

text \<open>The statements that reach the triggers, as events on the database.\<close>

datatype event =
    DenialRecorded uuid claim_denial
  | AppealInserted uuid appeal
  | AppealUpdated uuid appeal
  | RecoveryInserted uuid recovery_transaction
  | RecoveryUpdated uuid recovery_transaction bool

fun apply_event :: "db \<Rightarrow> event \<Rightarrow> error + db" where
  "apply_event d (DenialRecorded i new) = insert_claim_denial d i new"
| "apply_event d (AppealInserted i new) = insert_appeal d i new"
| "apply_event d (AppealUpdated i new) = update_appeal d i new"
| "apply_event d (RecoveryInserted i new) = insert_recovery_transaction d i new"
| "apply_event d (RecoveryUpdated i new b) = update_recovery_transaction d i new b"

text \<open>A list of events, stopping at the first that fails.\<close>

fun apply_events :: "db \<Rightarrow> event list \<Rightarrow> error + db" where
  "apply_events d [] = Inr d"
| "apply_events d (e # es) =
     (case apply_event d e of Inl x \<Rightarrow> Inl x | Inr d1 \<Rightarrow> apply_events d1 es)"

text \<open>\<^verbatim>\<open>check_paid_lte_claimed\<close> as a property of a stored claim.\<close>

definition paid_lte_claimed :: "claim \<Rightarrow> bool" where
  "paid_lte_claimed c = sql_check (\<lambda>p. p \<le> claimed_amount c) (paid_amount c)"

section \<open>The aggregator as the specification words it\<close>

text \<open>The statistics of a pattern, amounts as rational numbers.\<close>

record spec_pattern =
  spec_occurrence_count :: int
  spec_success_count :: int
  spec_avg_recovery_amount :: rat
  spec_total_recovery_amount :: rat

text \<open>The specification's update: create with count 1 when no pattern exists,
  otherwise increment the counts, take the weighted average and add to the total.\<close>

definition spec_aggregate :: "spec_pattern option \<Rightarrow> bool \<Rightarrow> rat \<Rightarrow> spec_pattern" where
  "spec_aggregate pat success outcomeAmount =
     (case pat of
        None \<Rightarrow>
          \<lparr>spec_occurrence_count = 1,
           spec_success_count = (if success then 1 else 0),
           spec_avg_recovery_amount = outcomeAmount,
           spec_total_recovery_amount = outcomeAmount\<rparr>
      | Some p \<Rightarrow>
          \<lparr>spec_occurrence_count = spec_occurrence_count p + 1,
           spec_success_count = spec_success_count p + (if success then 1 else 0),
           spec_avg_recovery_amount =
             (spec_avg_recovery_amount p * of_int (spec_occurrence_count p) + outcomeAmount)
               / of_int (spec_occurrence_count p + 1),
           spec_total_recovery_amount = spec_total_recovery_amount p + outcomeAmount\<rparr>)"

text \<open>The statistics of a stored row.\<close>

definition pattern_stats :: "knowledge_pattern \<Rightarrow> spec_pattern" where
  "pattern_stats k =
     \<lparr>spec_occurrence_count = occurrence_count k,
      spec_success_count = success_count k,
      spec_avg_recovery_amount = decimal2 (avg_recovery_amount k),
      spec_total_recovery_amount = decimal2 (total_recovery_amount k)\<rparr>"

text \<open>What the columns keep of such statistics: \<open>avg_recovery_amount\<close> is a
  \<open>decimal(12,2)\<close>, so the average is rounded to two decimal places.\<close>

definition stored_stats :: "spec_pattern \<Rightarrow> spec_pattern" where
  "stored_stats p =
     p\<lparr>spec_avg_recovery_amount := round_half_away_from_zero 2 (spec_avg_recovery_amount p)\<rparr>"

text \<open>The specification's derived rate \<open>success_count / occurrence_count\<close>.\<close>

definition spec_success_rate :: "knowledge_pattern \<Rightarrow> rat" where
  "spec_success_rate k = of_int (success_count k) / of_int (occurrence_count k)"

section \<open>Example rows\<close>

text \<open>A hospital at 25 percent, a denied claim of 125000.00 of payer 7, and a pending
  recovery of 60000.00 that supplies no fee percentage; then the rows and databases
  the examples below start from and arrive at. The clock stands at 1.\<close>

definition hospital0 :: hospital where
  "hospital0 = \<lparr>recovery_fee_percentage = Some 2500\<rparr>"

definition claim0 :: claim where
  "claim0 = \<lparr>payer_id = 7, claimed_amount = 12500000, approved_amount = None,
     paid_amount = Some 0, claim_status = Some denied, last_status_update = 0,
     claim_updated_at = 0\<rparr>"

definition tx0 :: recovery_transaction where
  "tx0 = \<lparr>hospital_id = 1, recovery_claim_id = 1, recovery_amount = 6000000,
     recovery_date = 0, agent_fee_percentage = None, agent_fee_amount = None,
     hospital_amount = None, payment_status = Some pending, payment_date = None,
     recovery_updated_at = 0\<rparr>"

definition db0 :: db where
  "db0 = \<lparr>clock = 1, hospitals = [1 \<mapsto> hospital0], claims = [1 \<mapsto> claim0],
     claim_denials = Map.empty, appeals = Map.empty, recovery_transactions = Map.empty,
     payer_knowledge_graph = Map.empty\<rparr>"

definition tx1 :: recovery_transaction where
  "tx1 = tx0\<lparr>agent_fee_percentage := Some 2500, agent_fee_amount := Some 1500000,
     hospital_amount := Some 4500000\<rparr>"

definition db1 :: db where
  "db1 = db0\<lparr>recovery_transactions := [1 \<mapsto> tx1]\<rparr>"

definition tx2 :: recovery_transaction where
  "tx2 = tx1\<lparr>payment_status := Some processed, recovery_updated_at := 1\<rparr>"

definition db2 :: db where
  "db2 = db1\<lparr>recovery_transactions := [1 \<mapsto> tx2],
     claims := [1 \<mapsto> claim0\<lparr>paid_amount := Some 6000000, claim_updated_at := 1\<rparr>]\<rparr>"

text \<open>A recovered and a written-off claim, a submitted and an accepted appeal.\<close>

definition claim_rec :: claim where
  "claim_rec = claim0\<lparr>approved_amount := Some 12500000, claim_status := Some recovered\<rparr>"

definition claim_wo :: claim where
  "claim_wo = claim0\<lparr>claim_status := Some written_off\<rparr>"

definition appeal_sub :: appeal where
  "appeal_sub = \<lparr>appeal_claim_id = 1, appeal_level = Some 1, appeal_type = reconsideration,
     generated_by = Some ai_agent, appeal_status = Some appeal_submitted,
     outcome_amount = None, appeal_updated_at = 0\<rparr>"

definition appeal_acc :: appeal where
  "appeal_acc = appeal_sub\<lparr>appeal_status := Some accepted, outcome_amount := Some 10000\<rparr>"

definition db_rec :: db where
  "db_rec = db0\<lparr>claims := [1 \<mapsto> claim_rec]\<rparr>"

definition db_rec_appealed :: db where
  "db_rec_appealed = db_rec\<lparr>appeals := [5 \<mapsto> appeal_sub],
     claims := [1 \<mapsto> claim_rec\<lparr>claim_status := Some appealed, last_status_update := 1,
                                 claim_updated_at := 1\<rparr>]\<rparr>"

definition db_wo :: db where
  "db_wo = db0\<lparr>claims := [1 \<mapsto> claim_wo]\<rparr>"

definition db_wo_recovered :: db where
  "db_wo_recovered = db_wo\<lparr>appeals := [5 \<mapsto> appeal_acc],
     claims := [1 \<mapsto> claim_wo\<lparr>claim_status := Some recovered,
                                approved_amount := Some 12500000,
                                last_status_update := 1, claim_updated_at := 1\<rparr>]\<rparr>"

text \<open>A denial, and processed recoveries.\<close>

definition denial0 :: claim_denial where
  "denial0 = \<lparr>denial_claim_id = 1, denial_amount = 12500000\<rparr>"

definition txp :: recovery_transaction where
  "txp = tx0\<lparr>payment_status := Some processed\<rparr>"

definition txp_stored :: recovery_transaction where
  "txp_stored = tx1\<lparr>payment_status := Some processed\<rparr>"

definition db_rec_paid :: db where
  "db_rec_paid = db_rec\<lparr>recovery_transactions := [1 \<mapsto> txp_stored],
     claims := [1 \<mapsto> claim_rec\<lparr>paid_amount := Some 6000000, claim_updated_at := 1\<rparr>]\<rparr>"

definition db_rec_accepted :: db where
  "db_rec_accepted = db_rec\<lparr>appeals := [5 \<mapsto> appeal_acc],
     claims := [1 \<mapsto> claim_rec\<lparr>claim_updated_at := 1\<rparr>]\<rparr>"

definition tx_full :: recovery_transaction where
  "tx_full = txp_stored\<lparr>recovery_amount := 12500000\<rparr>"

definition db0_recovered :: db where
  "db0_recovered = db0\<lparr>claims := [1 \<mapsto> claim0\<lparr>paid_amount := Some 12500000,
     claim_status := Some recovered, last_status_update := 1, claim_updated_at := 1\<rparr>]\<rparr>"

definition dbp :: db where
  "dbp = db0\<lparr>recovery_transactions := [1 \<mapsto> txp_stored],
     claims := [1 \<mapsto> claim0\<lparr>paid_amount := Some 6000000, claim_updated_at := 1\<rparr>]\<rparr>"

definition dbp_twice :: db where
  "dbp_twice = dbp\<lparr>recovery_transactions := [1 \<mapsto> txp_stored\<lparr>recovery_updated_at := 1\<rparr>],
     claims := [1 \<mapsto> claim0\<lparr>paid_amount := Some 12000000, claim_updated_at := 1\<rparr>]\<rparr>"

text \<open>Two appealed claims of the same payer with one level-1 appeal each, and the
  knowledge graph after the updates of those appeals.\<close>

definition claim_a :: claim where
  "claim_a = claim0\<lparr>claim_status := Some appealed\<rparr>"

definition appeal6 :: appeal where
  "appeal6 = appeal_sub\<lparr>appeal_claim_id := 2\<rparr>"

definition appeal_rev :: appeal where
  "appeal_rev = appeal_acc\<lparr>appeal_status := Some appeal_under_review\<rparr>"

definition appeal_rej :: appeal where
  "appeal_rej = appeal6\<lparr>appeal_status := Some rejected\<rparr>"

definition db6 :: db where
  "db6 = db0\<lparr>claims := [1 \<mapsto> claim_a, 2 \<mapsto> claim_a],
     appeals := [5 \<mapsto> appeal_sub, 6 \<mapsto> appeal6]\<rparr>"

definition k6c :: knowledge_pattern where
  "k6c = \<lparr>pattern_value = (reconsideration, Some ai_agent, accepted),
     occurrence_count = 2, success_count = 2, avg_recovery_amount = 10000,
     total_recovery_amount = 20000, confidence_level = 50,
     last_observed_at = 1, kg_updated_at = 1\<rparr>"

definition k6d :: knowledge_pattern where
  "k6d = k6c\<lparr>occurrence_count := 3, avg_recovery_amount := 6667\<rparr>"

definition db6c :: db where
  "db6c = db6\<lparr>claims := [1 \<mapsto> claim_a\<lparr>approved_amount := Some 12500000,
                    claim_status := Some recovered, last_status_update := 1,
                    claim_updated_at := 1\<rparr>, 2 \<mapsto> claim_a],
     appeals := [5 \<mapsto> appeal_acc\<lparr>appeal_updated_at := 1\<rparr>, 6 \<mapsto> appeal6],
     payer_knowledge_graph := [(7, ''appeal_level_1'') \<mapsto> k6c]\<rparr>"

definition db6d :: db where
  "db6d = db6c\<lparr>appeals := [5 \<mapsto> appeal_acc\<lparr>appeal_updated_at := 1\<rparr>,
                    6 \<mapsto> appeal_rej\<lparr>appeal_updated_at := 1\<rparr>],
     payer_knowledge_graph := [(7, ''appeal_level_1'') \<mapsto> k6d]\<rparr>"

definition k6a :: knowledge_pattern where
  "k6a = k6c\<lparr>occurrence_count := 1, success_count := 1, total_recovery_amount := 10000\<rparr>"

definition db6a :: db where
  "db6a = db6c\<lparr>payer_knowledge_graph := [(7, ''appeal_level_1'') \<mapsto> k6a]\<rparr>"

definition db6r :: db where
  "db6r = db6a\<lparr>appeals := [5 \<mapsto> appeal_acc\<lparr>appeal_status := Some rejected,
                                          appeal_updated_at := 1\<rparr>, 6 \<mapsto> appeal6]\<rparr>"

text \<open>An accepted appeal that is set back to \<open>draft\<close>, and appeals inserted with a
  final status.\<close>

definition db8 :: db where
  "db8 = db0\<lparr>appeals := [5 \<mapsto> appeal_acc]\<rparr>"

definition appeal_draft :: appeal where
  "appeal_draft = appeal_acc\<lparr>appeal_status := Some draft\<rparr>"

definition db8_reopened :: db where
  "db8_reopened = db8\<lparr>appeals := [5 \<mapsto> appeal_draft\<lparr>appeal_updated_at := 1\<rparr>]\<rparr>"

definition db0_accepted :: db where
  "db0_accepted = db0\<lparr>appeals := [5 \<mapsto> appeal_acc],
     claims := [1 \<mapsto> claim0\<lparr>approved_amount := Some 12500000,
                  claim_status := Some recovered, last_status_update := 1,
                  claim_updated_at := 1\<rparr>]\<rparr>"

definition db0_rejected :: db where
  "db0_rejected = db0\<lparr>appeals := [5 \<mapsto> appeal_acc\<lparr>appeal_status := Some rejected\<rparr>]\<rparr>"

section \<open>Properties\<close>

subsection \<open>Rounding\<close>

lemma floor_half_up:
  assumes "0 < d"
  shows "\<lfloor>(of_int m / of_int d :: rat) + 1 / 2\<rfloor> = (2 * m + d) div (2 * d)"
proof -
  have "(of_int m / of_int d :: rat) + 1 / 2 = of_int (2 * m + d) / of_int (2 * d)"
    using assms by (simp add: field_simps)
  then show ?thesis
    by (simp only: floor_divide_of_int_eq)
qed

lemma round_half_away_rat:
  assumes "0 < d"
  shows "(of_int (round_half_away n d) :: rat) =
         sgn (of_int n / of_int d) * of_int \<lfloor>\<bar>of_int n / of_int d :: rat\<bar> + 1 / 2\<rfloor>"
proof (cases "0 < n")
  case True
  then have "\<bar>of_int n / of_int d :: rat\<bar> = of_int n / of_int d" "sgn (of_int n / of_int d :: rat) = 1"
    using assms by (simp_all add: sgn_if)
  then show ?thesis
    using True assms by (simp add: round_half_away_def floor_half_up)
next
  case False
  show ?thesis
  proof (cases "n = 0")
    case True
    then show ?thesis using assms by (simp add: round_half_away_def)
  next
    case False
    with \<open>\<not> 0 < n\<close> have neg: "n < 0" by simp
    then have a: "\<bar>of_int n / of_int d :: rat\<bar> = of_int (- n) / of_int d"
      using assms by (simp add: abs_if field_simps)
    have s: "sgn (of_int n / of_int d :: rat) = - 1"
      using neg assms by (simp add: sgn_if field_simps)
    have f: "\<lfloor>(of_int (- n) / of_int d :: rat) + 1 / 2\<rfloor> = (2 * (- n) + d) div (2 * d)"
      using assms by (rule floor_half_up)
    have r: "round_half_away n d = - ((2 * (- n) + d) div (2 * d))"
      using neg by (simp add: round_half_away_def)
    show ?thesis
      unfolding a s f r by simp
  qed
qed

lemma round_places_aux:
  fixes x :: rat
  shows "sgn (x / 10 ^ k) = sgn x" "\<bar>x / 10 ^ k\<bar> * 10 ^ k = \<bar>x\<bar>"
proof -
  have p: "(0::rat) < 10 ^ k" by simp
  show "sgn (x / 10 ^ k) = sgn x"
    by (simp add: sgn_divide sgn_pos [OF p])
  show "\<bar>x / 10 ^ k\<bar> * 10 ^ k = \<bar>x\<bar>"
    by (simp add: abs_divide abs_of_pos [OF p])
qed

lemma round_half_away_places:
  assumes "0 < d"
  shows "(of_int (round_half_away n d) :: rat) / 10 ^ k =
         round_half_away_from_zero k (of_int n / of_int d / 10 ^ k)"
  unfolding round_half_away_from_zero_def round_places_aux
  by (simp only: round_half_away_rat [OF assms, of n])

lemma round_half_away_bounds:
  assumes "0 \<le> a" "0 \<le> p" "p \<le> 5000"
  shows "0 \<le> round_half_away (a * p) 10000" "round_half_away (a * p) 10000 \<le> a"
proof -
  have nn: "0 \<le> a * p" using assms by simp
  have le: "a * p \<le> a * 5000" using assms by (intro mult_left_mono) simp_all
  show "0 \<le> round_half_away (a * p) 10000"
    using nn by (simp add: round_half_away_def pos_imp_zdiv_nonneg_iff)
  have "(2 * (a * p) + 10000) div 20000 \<le> (10000 * a + 10000) div 20000"
    using le by (intro zdiv_mono1) simp_all
  also have "\<dots> \<le> a" using assms(1) by linarith
  finally show "round_half_away (a * p) 10000 \<le> a"
    using nn by (simp add: round_half_away_def)
qed


subsection \<open>The revenue share\<close>

lemma violation_none_sum:
  "recovery_transaction_violation r = None \<Longrightarrow> amounts_sum_ok r"
  by (cases "agent_fee_amount r"; cases "hospital_amount r")
     (simp_all add: recovery_transaction_violation_def amounts_sum_ok_def split: if_splits)

lemma update_claims_frame:
  assumes "update_claims d cid cond set_cols = Inr d'"
  shows "recovery_transactions d' = recovery_transactions d"
    and "payer_knowledge_graph d' = payer_knowledge_graph d"
    and "appeals d' = appeals d"
    and "hospitals d' = hospitals d"
    and "clock d' = clock d"
  using assms
  by (auto simp: update_claims_def Let_def split: option.splits if_splits)

lemma update_claim_on_recovery_frame:
  assumes "update_claim_on_recovery d new = Inr d'"
  shows "recovery_transactions d' = recovery_transactions d"
    and "payer_knowledge_graph d' = payer_knowledge_graph d"
  using assms update_claims_frame [of d "recovery_claim_id new"]
  by (auto simp: update_claim_on_recovery_def split: if_splits)

lemma insert_recovery_transaction_stored:
  assumes "insert_recovery_transaction d i new = Inr d'"
  shows "\<exists>r. calculate_revenue_share d new = Inr r \<and> recovery_transaction_violation r = None
           \<and> recovery_transactions d' = (recovery_transactions d)(i \<mapsto> r)"
proof -
  from assms obtain r where r: "calculate_revenue_share d new = Inr r"
    by (cases "calculate_revenue_share d new") (simp_all add: insert_recovery_transaction_def)
  from assms r have v: "recovery_transaction_violation r = None"
    by (cases "recovery_transaction_violation r") (simp_all add: insert_recovery_transaction_def)
  let ?d1 = "d\<lparr>recovery_transactions := (recovery_transactions d)(i \<mapsto> r)\<rparr>"
  from assms r v have "update_claim_on_recovery ?d1 r = Inr d' \<or> d' = ?d1"
    by (auto simp: insert_recovery_transaction_def Let_def split: if_splits)
  then have "recovery_transactions d' = recovery_transactions ?d1"
    using update_claim_on_recovery_frame(1) by blast
  with r v show ?thesis by simp
qed

lemma update_recovery_transaction_stored:
  assumes "update_recovery_transaction d i new b = Inr d'"
    and "recovery_transactions d i = Some old"
  shows "recovery_transaction_violation (new\<lparr>recovery_updated_at := clock d\<rparr>) = None
           \<and> recovery_transactions d' =
               (recovery_transactions d)(i \<mapsto> new\<lparr>recovery_updated_at := clock d\<rparr>)"
proof -
  let ?r = "new\<lparr>recovery_updated_at := clock d\<rparr>"
  from assms have v: "recovery_transaction_violation ?r = None"
    by (cases "recovery_transaction_violation ?r")
       (simp_all add: update_recovery_transaction_def Let_def)
  let ?d1 = "d\<lparr>recovery_transactions := (recovery_transactions d)(i \<mapsto> ?r)\<rparr>"
  from assms v have "update_claim_on_recovery ?d1 ?r = Inr d' \<or> d' = ?d1"
    by (auto simp: update_recovery_transaction_def Let_def split: if_splits)
  then have "recovery_transactions d' = recovery_transactions ?d1"
    using update_claim_on_recovery_frame(1) by blast
  with v show ?thesis by simp
qed

lemma calculate_revenue_share_valid:
  assumes "0 < recovery_amount new" "fits_12_2 (recovery_amount new)"
    and "agent_fee_percentage new = Some p" "0 \<le> p" "p \<le> 5000"
    and "sql_check (\<lambda>t. recovery_date new \<le> t) (payment_date new)"
  shows "\<exists>r. calculate_revenue_share d new = Inr r \<and> recovery_transaction_violation r = None"
proof -
  let ?f = "round_half_away (recovery_amount new * p) 10000"
  have b: "0 \<le> ?f" "?f \<le> recovery_amount new"
    using round_half_away_bounds [of "recovery_amount new" p] assms by simp_all
  then have fit: "fits_12_2 ?f" "fits_12_2 (recovery_amount new - ?f)"
    using assms(2) by (simp_all add: fits_12_2_def)
  let ?r = "new\<lparr>agent_fee_percentage := Some p, agent_fee_amount := Some ?f,
                 hospital_amount := Some (recovery_amount new - ?f)\<rparr>"
  have "calculate_revenue_share d new = Inr ?r"
    using assms(3) fit by (simp add: calculate_revenue_share_def)
  moreover have "recovery_transaction_violation ?r = None"
    using assms b by (simp add: recovery_transaction_violation_def)
  ultimately show ?thesis by blast
qed

text \<open>
  Claim C1. Every stored recovery transaction satisfies
  \<open>agent_fee_amount + hospital_amount = recovery_amount\<close> exactly: if all stored rows
  do, they still do after any insert that succeeds (the BEFORE INSERT trigger derives
  the hospital amount by subtraction) and after any update that succeeds (the trigger
  does not run, and \<^verbatim>\<open>check_amounts_sum\<close> rejects a row that breaks the sum). For a fee
  percentage in \<open>[0, 50]\<close> and a positive amount the trigger's row passes every
  constraint, so such an insert is never rejected for its split.
\<close>

theorem recovery_amounts_sum_exact:
  assumes inv: "\<forall>j r. recovery_transactions d j = Some r \<longrightarrow> amounts_sum_ok r"
  shows "(insert_recovery_transaction d i new = Inr d' \<longrightarrow>
            (\<forall>j r. recovery_transactions d' j = Some r \<longrightarrow> amounts_sum_ok r))
       \<and> (update_recovery_transaction d i new b = Inr d' \<longrightarrow>
            (\<forall>j r. recovery_transactions d' j = Some r \<longrightarrow> amounts_sum_ok r))
       \<and> (0 < recovery_amount new \<and> fits_12_2 (recovery_amount new) \<and>
          agent_fee_percentage new = Some p \<and> 0 \<le> p \<and> p \<le> 5000 \<and>
          sql_check (\<lambda>t. recovery_date new \<le> t) (payment_date new) \<longrightarrow>
            (\<exists>r. calculate_revenue_share d new = Inr r \<and> recovery_transaction_violation r = None
               \<and> amounts_sum_ok r))"
proof (intro conjI impI)
  assume "insert_recovery_transaction d i new = Inr d'"
  from insert_recovery_transaction_stored [OF this] inv violation_none_sum
  show "\<forall>j r. recovery_transactions d' j = Some r \<longrightarrow> amounts_sum_ok r"
    by (auto split: if_splits)
next
  assume u: "update_recovery_transaction d i new b = Inr d'"
  show "\<forall>j r. recovery_transactions d' j = Some r \<longrightarrow> amounts_sum_ok r"
  proof (cases "recovery_transactions d i")
    case None
    with u have "d' = d" by (simp add: update_recovery_transaction_def)
    with inv show ?thesis by simp
  next
    case (Some old)
    from update_recovery_transaction_stored [OF u Some] inv violation_none_sum
    show ?thesis by (auto split: if_splits)
  qed
next
  assume "0 < recovery_amount new \<and> fits_12_2 (recovery_amount new) \<and>
          agent_fee_percentage new = Some p \<and> 0 \<le> p \<and> p \<le> 5000 \<and>
          sql_check (\<lambda>t. recovery_date new \<le> t) (payment_date new)"
  then show "\<exists>r. calculate_revenue_share d new = Inr r \<and> recovery_transaction_violation r = None
              \<and> amounts_sum_ok r"
    using calculate_revenue_share_valid [of new p d] violation_none_sum by blast
qed

lemma insert_db0: "insert_recovery_transaction db0 1 tx0 = Inr db1"
  by (simp add: insert_recovery_transaction_def calculate_revenue_share_def
      recovery_transaction_violation_def round_half_away_def fits_12_2_def
      db0_def db1_def tx0_def tx1_def hospital0_def claim0_def)

lemma update_db1:
  "update_recovery_transaction db1 1 (tx1\<lparr>payment_status := Some processed\<rparr>) True = Inr db2"
  by (simp add: update_recovery_transaction_def update_claim_on_recovery_def update_claims_def
      new_claim_row_def update_claim_status_timestamp_def claim_violation_def
      recovery_transaction_violation_def fits_12_2_def
      db0_def db1_def db2_def tx0_def tx1_def tx2_def hospital0_def claim0_def)

text \<open>C1 on the example database: a pending recovery of 60000.00 at the hospital's
  25 percent is inserted, then updated to \<open>processed\<close>.\<close>

theorem recovery_amounts_sum_exact_witness:
  "insert_recovery_transaction db0 1 tx0 = Inr db1
   \<and> recovery_transactions db1 1 = Some tx1 \<and> amounts_sum_ok tx1
   \<and> update_recovery_transaction db1 1 (tx1\<lparr>payment_status := Some processed\<rparr>) True = Inr db2
   \<and> recovery_transactions db2 1 = Some tx2 \<and> amounts_sum_ok tx2
   \<and> (\<exists>r. calculate_revenue_share db0 tx1 = Inr r \<and> recovery_transaction_violation r = None
          \<and> amounts_sum_ok r)"
proof -
  have i0: "\<forall>j r. recovery_transactions db0 j = Some r \<longrightarrow> amounts_sum_ok r"
    by (simp add: db0_def)
  have s1: "recovery_transactions db1 1 = Some tx1" by (simp add: db1_def)
  have s2: "recovery_transactions db2 1 = Some tx2" by (simp add: db2_def)
  from recovery_amounts_sum_exact [OF i0, where i = 1 and new = tx0 and d' = db1] insert_db0
  have i1: "\<forall>j r. recovery_transactions db1 j = Some r \<longrightarrow> amounts_sum_ok r" by blast
  then have a1: "amounts_sum_ok tx1" using s1 by blast
  from recovery_amounts_sum_exact [OF i1, where i = 1 and new = "tx1\<lparr>payment_status := Some processed\<rparr>" and b = True and d' = db2]
    update_db1
  have "\<forall>j r. recovery_transactions db2 j = Some r \<longrightarrow> amounts_sum_ok r" by blast
  then have a2: "amounts_sum_ok tx2" using s2 by blast
  have h: "0 < recovery_amount tx1 \<and> fits_12_2 (recovery_amount tx1) \<and>
          agent_fee_percentage tx1 = Some 2500 \<and> (0::int) \<le> 2500 \<and> (2500::int) \<le> 5000 \<and>
          sql_check (\<lambda>t. recovery_date tx1 \<le> t) (payment_date tx1)"
    by (simp add: tx1_def tx0_def fits_12_2_def)
  from recovery_amounts_sum_exact [OF i0, where new = tx1 and p = 2500] h
  have "\<exists>r. calculate_revenue_share db0 tx1 = Inr r \<and> recovery_transaction_violation r = None
          \<and> amounts_sum_ok r" by blast
  with insert_db0 s1 a1 update_db1 s2 a2 show ?thesis by blast
qed

lemma decimal2_diff: "decimal2 (a - b) = decimal2 a - decimal2 b"
  by (simp add: decimal2_def diff_divide_distrib)

lemma fee_as_spec:
  "decimal2 (round_half_away (a * p) 10000) =
     round_half_away_from_zero 2 (decimal2 a * decimal2 p / 100)"
proof -
  have "decimal2 (round_half_away (a * p) 10000) =
          (of_int (round_half_away (a * p) 10000) :: rat) / 10 ^ 2"
    by (simp add: decimal2_def)
  also have "\<dots> = round_half_away_from_zero 2 (of_int (a * p) / of_int 10000 / 10 ^ 2)"
    by (rule round_half_away_places) simp
  also have "(of_int (a * p) / of_int 10000 / 10 ^ 2 :: rat) = decimal2 a * decimal2 p / 100"
    by (simp add: decimal2_def)
  finally show ?thesis .
qed

lemma calculate_revenue_share_as_spec:
  assumes "calculate_revenue_share d new = Inr r"
    and "(case agent_fee_percentage new of
            Some q \<Rightarrow> Some q
          | None \<Rightarrow> (case hospitals d (hospital_id new) of
                       None \<Rightarrow> None
                     | Some h \<Rightarrow> recovery_fee_percentage h)) = Some p"
  shows "agent_fee_percentage r = Some p \<and>
         (\<exists>f g. agent_fee_amount r = Some f \<and> hospital_amount r = Some g \<and>
            g = recovery_amount new - f \<and>
            (decimal2 f, decimal2 g) = spec_split (decimal2 (recovery_amount new)) (decimal2 p))"
proof -
  let ?f = "round_half_away (recovery_amount new * p) 10000"
  from assms have "r = new\<lparr>agent_fee_percentage := Some p, agent_fee_amount := Some ?f,
                 hospital_amount := Some (recovery_amount new - ?f)\<rparr>"
    by (auto simp: calculate_revenue_share_def Let_def split: if_splits)
  then show ?thesis
    by (simp add: spec_split_def Let_def fee_as_spec decimal2_diff)
qed

text \<open>
  Claim C2. The fee the trigger stores is \<open>recovery_amount * agent_fee_percentage / 100\<close>
  rounded half away from zero to two decimal places, and the hospital amount is the
  recovery amount minus that fee: the stored pair is the specification's \<open>split\<close>.
  The percentage is the one supplied with the row, or the hospital's
  \<open>recovery_fee_percentage\<close> when the row supplies none. For a recovery of 60000.00 at
  25 percent the fee is 15000.00 and the hospital amount 45000.00.
\<close>

theorem revenue_share_split:
  "(calculate_revenue_share d new = Inr r \<and> agent_fee_percentage new = Some p \<longrightarrow>
      agent_fee_percentage r = Some p \<and>
      (\<exists>f g. agent_fee_amount r = Some f \<and> hospital_amount r = Some g \<and>
         g = recovery_amount new - f \<and>
         (decimal2 f, decimal2 g) = spec_split (decimal2 (recovery_amount new)) (decimal2 p)))
   \<and> (calculate_revenue_share d new = Inr r \<and> agent_fee_percentage new = None \<and>
      hospitals d (hospital_id new) = Some h \<and> recovery_fee_percentage h = Some p \<longrightarrow>
      agent_fee_percentage r = Some p \<and>
      (\<exists>f g. agent_fee_amount r = Some f \<and> hospital_amount r = Some g \<and>
         g = recovery_amount new - f \<and>
         (decimal2 f, decimal2 g) = spec_split (decimal2 (recovery_amount new)) (decimal2 p)))
   \<and> calculate_revenue_share d (new\<lparr>recovery_amount := 6000000, agent_fee_percentage := Some 2500\<rparr>)
       = Inr (new\<lparr>recovery_amount := 6000000, agent_fee_percentage := Some 2500,
                  agent_fee_amount := Some 1500000, hospital_amount := Some 4500000\<rparr>)
   \<and> spec_split 60000 25 = (15000, 45000)"
proof (intro conjI impI)
  assume "calculate_revenue_share d new = Inr r \<and> agent_fee_percentage new = Some p"
  then show "agent_fee_percentage r = Some p"
    "\<exists>f g. agent_fee_amount r = Some f \<and> hospital_amount r = Some g \<and>
         g = recovery_amount new - f \<and>
         (decimal2 f, decimal2 g) = spec_split (decimal2 (recovery_amount new)) (decimal2 p)"
    using calculate_revenue_share_as_spec [of d new r p] by simp_all
next
  assume "calculate_revenue_share d new = Inr r \<and> agent_fee_percentage new = None \<and>
      hospitals d (hospital_id new) = Some h \<and> recovery_fee_percentage h = Some p"
  then show "agent_fee_percentage r = Some p"
    "\<exists>f g. agent_fee_amount r = Some f \<and> hospital_amount r = Some g \<and>
         g = recovery_amount new - f \<and>
         (decimal2 f, decimal2 g) = spec_split (decimal2 (recovery_amount new)) (decimal2 p)"
    using calculate_revenue_share_as_spec [of d new r p] by simp_all
next
  show "calculate_revenue_share d (new\<lparr>recovery_amount := 6000000, agent_fee_percentage := Some 2500\<rparr>)
       = Inr (new\<lparr>recovery_amount := 6000000, agent_fee_percentage := Some 2500,
                  agent_fee_amount := Some 1500000, hospital_amount := Some 4500000\<rparr>)"
    by (simp add: calculate_revenue_share_def round_half_away_def fits_12_2_def)
next
  have "\<lfloor>(3000001 / 2 :: rat)\<rfloor> = \<lfloor>(of_int 3000001 / of_int 2 :: rat)\<rfloor>" by simp
  also have "\<dots> = 1500000" by (simp only: floor_divide_of_int_eq)
  finally show "spec_split 60000 25 = (15000, 45000)"
    by (simp add: spec_split_def round_half_away_from_zero_def Let_def)
qed

text \<open>C2 on the example database: the row \<open>tx0\<close> supplies no percentage and gets
  the hospital's 25 percent.\<close>

theorem revenue_share_split_witness:
  "calculate_revenue_share db0 tx0 = Inr tx1 \<and> agent_fee_percentage tx0 = None \<and>
   hospitals db0 (hospital_id tx0) = Some hospital0 \<and>
   recovery_fee_percentage hospital0 = Some 2500 \<and>
   agent_fee_percentage tx1 = Some 2500 \<and>
   (\<exists>f g. agent_fee_amount tx1 = Some f \<and> hospital_amount tx1 = Some g \<and>
      g = recovery_amount tx0 - f \<and>
      (decimal2 f, decimal2 g) = spec_split (decimal2 (recovery_amount tx0)) (decimal2 2500))
   \<and> calculate_revenue_share db0 tx1 = Inr tx1"
proof -
  have c: "calculate_revenue_share db0 tx0 = Inr tx1"
    by (simp add: calculate_revenue_share_def round_half_away_def fits_12_2_def
        db0_def tx0_def tx1_def hospital0_def)
  have c1: "calculate_revenue_share db0 tx1 = Inr tx1"
    by (simp add: calculate_revenue_share_def round_half_away_def fits_12_2_def
        db0_def tx0_def tx1_def hospital0_def)
  have h: "agent_fee_percentage tx0 = None \<and> hospitals db0 (hospital_id tx0) = Some hospital0 \<and>
     recovery_fee_percentage hospital0 = Some 2500"
    by (simp add: db0_def tx0_def hospital0_def)
  have p: "agent_fee_percentage tx1 = Some 2500" by (simp add: tx1_def)
  from revenue_share_split [of db0 tx0 tx1 2500 hospital0] c h
  have a: "\<exists>f g. agent_fee_amount tx1 = Some f \<and> hospital_amount tx1 = Some g \<and>
      g = recovery_amount tx0 - f \<and>
      (decimal2 f, decimal2 g) = spec_split (decimal2 (recovery_amount tx0)) (decimal2 2500)"
    by blast
  from revenue_share_split [of db0 tx1 tx1 2500 hospital0] c1 p
  have "agent_fee_percentage tx1 = Some 2500" by blast
  with c h a c1 show ?thesis by blast
qed

subsection \<open>Claim status and paid amounts\<close>

lemmas example_defs = db0_def hospital0_def claim0_def tx0_def tx1_def tx2_def db1_def
  db2_def claim_rec_def claim_wo_def appeal_sub_def appeal_acc_def db_rec_def
  db_rec_appealed_def db_wo_def db_wo_recovered_def denial0_def txp_def txp_stored_def
  db_rec_paid_def db_rec_accepted_def tx_full_def db0_recovered_def dbp_def dbp_twice_def

lemmas statement_defs = insert_appeal_def update_appeal_def insert_claim_denial_def
  insert_recovery_transaction_def update_recovery_transaction_def
  auto_update_claim_status_on_appeal_def auto_update_claim_status_on_denial_def
  update_claim_on_recovery_def update_claims_def new_claim_row_def
  update_claim_status_timestamp_def
  calculate_revenue_share_def old_appeal_status_def
  claim_violation_def appeal_violation_def recovery_transaction_violation_def
  fits_12_2_def round_half_away_def


lemma new_claim_row_fields:
  "claim_status (new_claim_row d old x) = claim_status x"
  "paid_amount (new_claim_row d old x) = paid_amount x"
  "approved_amount (new_claim_row d old x) = approved_amount x"
  "claimed_amount (new_claim_row d old x) = claimed_amount x"
  "payer_id (new_claim_row d old x) = payer_id x"
  by (simp_all add: new_claim_row_def update_claim_status_timestamp_def)

lemma update_claims_cases:
  assumes "update_claims d t cond f = Inr d'"
  shows "d' = d \<or>
         (\<exists>old. claims d t = Some old \<and> cond old \<and>
                claim_violation (new_claim_row d old (f old)) = None \<and>
                d' = d\<lparr>claims := (claims d)(t \<mapsto> new_claim_row d old (f old))\<rparr>)"
  using assms
  by (auto simp: update_claims_def new_claim_row_def Let_def split: option.splits if_splits)

lemma claim_violation_paid:
  "claim_violation c = None \<Longrightarrow> paid_lte_claimed c"
  by (simp add: claim_violation_def paid_lte_claimed_def split: if_splits)

lemma update_claims_other:
  assumes "update_claims d t cond f = Inr d'" "cid \<noteq> t"
  shows "claims d' cid = claims d cid"
  using update_claims_cases [OF assms(1)] assms(2) by auto





lemma update_knowledge_graph_frame:
  assumes "update_knowledge_graph_from_appeal d old a = Inr d'"
  shows "claims d' = claims d" and "appeals d' = appeals d"
    and "recovery_transactions d' = recovery_transactions d" and "clock d' = clock d"
  using assms
  by (auto simp: update_knowledge_graph_from_appeal_def Let_def
           split: option.splits if_splits)

lemma insert_recovery_claims:
  assumes "insert_recovery_transaction d i tx = Inr d'"
  shows "claims d' = claims d \<or>
         (\<exists>r d1. claims d1 = claims d \<and> update_claim_on_recovery d1 r = Inr d' \<and>
                 recovery_amount r = recovery_amount tx \<and>
                 recovery_claim_id r = recovery_claim_id tx \<and>
                 payment_status r = payment_status tx)"
proof -
  from assms obtain r where r: "calculate_revenue_share d tx = Inr r"
    by (cases "calculate_revenue_share d tx") (simp_all add: insert_recovery_transaction_def)
  then have f: "recovery_amount r = recovery_amount tx" "recovery_claim_id r = recovery_claim_id tx"
    "payment_status r = payment_status tx"
    by (auto simp: calculate_revenue_share_def Let_def split: if_splits)
  let ?d1 = "d\<lparr>recovery_transactions := (recovery_transactions d)(i \<mapsto> r)\<rparr>"
  from assms r have "update_claim_on_recovery ?d1 r = Inr d' \<or> d' = ?d1"
    by (auto simp: insert_recovery_transaction_def Let_def split: option.splits if_splits)
  then show ?thesis
  proof
    assume "update_claim_on_recovery ?d1 r = Inr d'"
    moreover have "claims ?d1 = claims d" by simp
    ultimately show ?thesis using f by blast
  next
    assume "d' = ?d1" then show ?thesis by simp
  qed
qed

lemma update_recovery_claims:
  assumes "update_recovery_transaction d i tx b = Inr d'"
  shows "claims d' = claims d \<or>
         (\<exists>r d1. claims d1 = claims d \<and> update_claim_on_recovery d1 r = Inr d' \<and>
                 recovery_amount r = recovery_amount tx \<and>
                 recovery_claim_id r = recovery_claim_id tx \<and>
                 payment_status r = payment_status tx)"
proof (cases "recovery_transactions d i")
  case None
  with assms show ?thesis by (simp add: update_recovery_transaction_def)
next
  case (Some old)
  let ?r = "tx\<lparr>recovery_updated_at := clock d\<rparr>"
  let ?d1 = "d\<lparr>recovery_transactions := (recovery_transactions d)(i \<mapsto> ?r)\<rparr>"
  from assms Some have "update_claim_on_recovery ?d1 ?r = Inr d' \<or> d' = ?d1"
    by (auto simp: update_recovery_transaction_def Let_def split: option.splits if_splits)
  then show ?thesis
  proof
    assume "update_claim_on_recovery ?d1 ?r = Inr d'"
    moreover have "claims ?d1 = claims d" by simp
    moreover have "recovery_amount ?r = recovery_amount tx \<and>
                 recovery_claim_id ?r = recovery_claim_id tx \<and>
                 payment_status ?r = payment_status tx" by simp
    ultimately show ?thesis by blast
  next
    assume "d' = ?d1" then show ?thesis by simp
  qed
qed

lemma insert_appeal_claims:
  assumes "insert_appeal d i a = Inr d'"
  shows "\<exists>d1. claims d1 = claims d \<and> clock d1 = clock d \<and>
              payer_knowledge_graph d1 = payer_knowledge_graph d \<and>
              appeals d1 = (appeals d)(i \<mapsto> a) \<and>
              auto_update_claim_status_on_appeal d1 None a = Inr d'"
proof -
  let ?d1 = "d\<lparr>appeals := (appeals d)(i \<mapsto> a)\<rparr>"
  from assms have "auto_update_claim_status_on_appeal ?d1 None a = Inr d'"
    by (auto simp: insert_appeal_def split: option.splits if_splits)
  moreover have "claims ?d1 = claims d \<and> clock ?d1 = clock d \<and>
              payer_knowledge_graph ?d1 = payer_knowledge_graph d \<and>
              appeals ?d1 = (appeals d)(i \<mapsto> a)" by simp
  ultimately show ?thesis by blast
qed

lemma update_appeal_steps:
  assumes "update_appeal d i new = Inr d'" "appeals d i = Some old"
  shows "\<exists>d1 d2. claims d1 = claims d \<and> clock d1 = clock d \<and>
              payer_knowledge_graph d1 = payer_knowledge_graph d \<and>
              auto_update_claim_status_on_appeal d1 (Some old)
                 (new\<lparr>appeal_updated_at := clock d\<rparr>) = Inr d2 \<and>
              update_knowledge_graph_from_appeal d2 (Some old)
                 (new\<lparr>appeal_updated_at := clock d\<rparr>) = Inr d'"
proof -
  let ?a = "new\<lparr>appeal_updated_at := clock d\<rparr>"
  let ?d1 = "d\<lparr>appeals := (appeals d)(i \<mapsto> ?a)\<rparr>"
  from assms obtain d2 where "auto_update_claim_status_on_appeal ?d1 (Some old) ?a = Inr d2"
    "update_knowledge_graph_from_appeal d2 (Some old) ?a = Inr d'"
    by (auto simp: update_appeal_def Let_def split: option.splits if_splits sum.splits)
  moreover have "claims ?d1 = claims d \<and> clock ?d1 = clock d \<and>
              payer_knowledge_graph ?d1 = payer_knowledge_graph d" by simp
  ultimately show ?thesis by blast
qed





text \<open>
  Claim C5 fails on the schema. Replaying the insert of a recovery transaction under
  the id already stored is an error, a violation of the primary key, not a success
  without effect. And the amount of one transaction can reach \<open>paid_amount\<close> twice: an
  UPDATE that sets \<open>payment_status\<close> to \<open>processed\<close> on a row that is already
  \<open>processed\<close> runs the trigger again.
\<close>

theorem duplicate_recovery_counterexample:
  "apply_event db0 (RecoveryInserted 1 txp) = Inr dbp \<and>
   apply_event dbp (RecoveryInserted 1 txp) = Inl (UniqueViolation ''recovery_transactions_pkey'') \<and>
   apply_event dbp (RecoveryUpdated 1 txp_stored True) = Inr dbp_twice \<and>
   map_option paid_amount (claims dbp 1) = Some (Some 6000000) \<and>
   map_option paid_amount (claims dbp_twice 1) = Some (Some 12000000)"
  by (simp add: statement_defs example_defs)

lemma update_claims_paid_inv:
  assumes "update_claims d t cond f = Inr d'"
    and "\<forall>cid c. claims d cid = Some c \<longrightarrow> paid_lte_claimed c"
  shows "\<forall>cid c. claims d' cid = Some c \<longrightarrow> paid_lte_claimed c"
  using update_claims_cases [OF assms(1)] assms(2) claim_violation_paid
  by (auto split: if_splits)

lemma appeal_trigger_paid_inv:
  assumes "auto_update_claim_status_on_appeal d old a = Inr d'"
    and "\<forall>cid c. claims d cid = Some c \<longrightarrow> paid_lte_claimed c"
  shows "\<forall>cid c. claims d' cid = Some c \<longrightarrow> paid_lte_claimed c"
proof -
  from assms(1) obtain d1 where
    d1: "d1 = d \<or> update_claims d (appeal_claim_id a) (\<lambda>c. True)
                   (\<lambda>c. c\<lparr>claim_status := Some appealed\<rparr>) = Inr d1"
    and d': "d' = d1 \<or> update_claims d1 (appeal_claim_id a) (\<lambda>c. True)
                 (\<lambda>c. c\<lparr>claim_status := Some recovered,
                        approved_amount :=
                          (if appeal_status a = Some accepted
                           then Some (claimed_amount c) else outcome_amount a)\<rparr>) = Inr d'"
    by (auto simp: auto_update_claim_status_on_appeal_def split: if_splits sum.splits)
  from d1 assms(2) have "\<forall>cid c. claims d1 cid = Some c \<longrightarrow> paid_lte_claimed c"
    using update_claims_paid_inv by blast
  with d' show ?thesis using update_claims_paid_inv by blast
qed

lemma recovery_trigger_paid_inv:
  assumes "update_claim_on_recovery d tx = Inr d'"
    and "\<forall>cid c. claims d cid = Some c \<longrightarrow> paid_lte_claimed c"
  shows "\<forall>cid c. claims d' cid = Some c \<longrightarrow> paid_lte_claimed c"
proof (cases "payment_status tx = Some processed")
  case True
  with assms(1) update_claims_paid_inv [OF _ assms(2)] show ?thesis
    by (simp add: update_claim_on_recovery_def)
next
  case False
  with assms show ?thesis by (simp add: update_claim_on_recovery_def)
qed

lemma apply_event_paid_inv:
  assumes e: "apply_event d e = Inr d'"
    and inv: "\<forall>cid c. claims d cid = Some c \<longrightarrow> paid_lte_claimed c"
  shows "\<forall>cid c. claims d' cid = Some c \<longrightarrow> paid_lte_claimed c"
proof (cases e)
  case (DenialRecorded i dn)
  let ?d1 = "d\<lparr>claim_denials := (claim_denials d)(i \<mapsto> dn)\<rparr>"
  from e DenialRecorded have "update_claims ?d1 (denial_claim_id dn)
       (\<lambda>c. case claim_status c of
               None \<Rightarrow> False
             | Some s \<Rightarrow> s \<noteq> appealed \<and> s \<noteq> recovered \<and> s \<noteq> written_off)
       (\<lambda>c. c\<lparr>claim_status := Some denied\<rparr>) = Inr d'"
    by (simp add: insert_claim_denial_def auto_update_claim_status_on_denial_def
             split: if_splits)
  from update_claims_paid_inv [OF this] inv show ?thesis by simp
next
  case (AppealInserted i a)
  with e have "insert_appeal d i a = Inr d'" by simp
  from insert_appeal_claims [OF this] obtain d1 where
    "claims d1 = claims d" "auto_update_claim_status_on_appeal d1 None a = Inr d'" by blast
  with appeal_trigger_paid_inv [of d1 None a d'] inv show ?thesis by simp
next
  case (AppealUpdated i a)
  with e have u: "update_appeal d i a = Inr d'" by simp
  show ?thesis
  proof (cases "appeals d i")
    case None
    with u have "d' = d" by (simp add: update_appeal_def)
    with inv show ?thesis by simp
  next
    case (Some old)
    from update_appeal_steps [OF u Some] obtain d1 d2 where
      s: "claims d1 = claims d"
      "auto_update_claim_status_on_appeal d1 (Some old) (a\<lparr>appeal_updated_at := clock d\<rparr>) = Inr d2"
      "update_knowledge_graph_from_appeal d2 (Some old) (a\<lparr>appeal_updated_at := clock d\<rparr>) = Inr d'"
      by blast
    from appeal_trigger_paid_inv [OF s(2)] inv s(1)
    have "\<forall>cid c. claims d2 cid = Some c \<longrightarrow> paid_lte_claimed c" by simp
    with update_knowledge_graph_frame(1) [OF s(3)] show ?thesis by simp
  qed
next
  case (RecoveryInserted i tx)
  with e have "insert_recovery_transaction d i tx = Inr d'" by simp
  from insert_recovery_claims [OF this] inv recovery_trigger_paid_inv show ?thesis
    by (metis (no_types, lifting))
next
  case (RecoveryUpdated i tx b)
  with e have "update_recovery_transaction d i tx b = Inr d'" by simp
  from update_recovery_claims [OF this] inv recovery_trigger_paid_inv show ?thesis
    by (metis (no_types, lifting))
qed

lemma insert_recovery_existing:
  assumes "recovery_transactions d i = Some r0"
  shows "\<exists>x. insert_recovery_transaction d i tx = Inl x"
  using assms
  by (auto simp: insert_recovery_transaction_def split: sum.splits option.splits)

text \<open>
  Claim C5, amended. If every claim has \<open>paid_amount \<le> claimed_amount\<close>, then so has
  every claim after any event that succeeds: an event that would exceed the claimed
  amount is rejected by \<^verbatim>\<open>check_paid_lte_claimed\<close>. Inserting a recovery transaction
  under an id that is already stored fails, with a primary key violation when the
  row itself is valid, so the replay adds nothing to \<open>paid_amount\<close>.
\<close>

theorem paid_within_claimed:
  "((\<forall>cid c. claims d cid = Some c \<longrightarrow> paid_lte_claimed c) \<and> apply_event d e = Inr d' \<longrightarrow>
      (\<forall>cid c. claims d' cid = Some c \<longrightarrow> paid_lte_claimed c))
   \<and> (recovery_transactions d i = Some r0 \<longrightarrow>
        (\<exists>x. apply_event d (RecoveryInserted i tx) = Inl x))
   \<and> (recovery_transactions d i = Some r0 \<and> calculate_revenue_share d tx = Inr r \<and>
      recovery_transaction_violation r = None \<longrightarrow>
        apply_event d (RecoveryInserted i tx) = Inl (UniqueViolation ''recovery_transactions_pkey''))"
proof (intro conjI impI)
  assume "(\<forall>cid c. claims d cid = Some c \<longrightarrow> paid_lte_claimed c) \<and> apply_event d e = Inr d'"
  then show "\<forall>cid c. claims d' cid = Some c \<longrightarrow> paid_lte_claimed c"
    using apply_event_paid_inv [of d e d'] by blast
next
  assume "recovery_transactions d i = Some r0"
  then show "\<exists>x. apply_event d (RecoveryInserted i tx) = Inl x"
    using insert_recovery_existing [of d i r0 tx] by simp
next
  assume "recovery_transactions d i = Some r0 \<and> calculate_revenue_share d tx = Inr r \<and>
      recovery_transaction_violation r = None"
  then show "apply_event d (RecoveryInserted i tx) = Inl (UniqueViolation ''recovery_transactions_pkey'')"
    by (auto simp: insert_recovery_transaction_def)
qed

text \<open>
  C5 on the example database: a processed recovery is inserted, then inserted again.
\<close>

theorem paid_within_claimed_witness:
  "apply_event db0 (RecoveryInserted 1 txp) = Inr dbp \<and>
   claims dbp 1 = Some (claim0\<lparr>paid_amount := Some 6000000, claim_updated_at := 1\<rparr>) \<and>
   paid_lte_claimed (claim0\<lparr>paid_amount := Some 6000000, claim_updated_at := 1\<rparr>) \<and>
   recovery_transactions dbp 1 = Some txp_stored \<and>
   calculate_revenue_share dbp txp = Inr txp_stored \<and>
   recovery_transaction_violation txp_stored = None \<and>
   (\<exists>x. apply_event dbp (RecoveryInserted 1 txp) = Inl x) \<and>
   apply_event dbp (RecoveryInserted 1 txp) = Inl (UniqueViolation ''recovery_transactions_pkey'')"
proof -
  have i0: "\<forall>cid c. claims db0 cid = Some c \<longrightarrow> paid_lte_claimed c"
    by (simp add: example_defs paid_lte_claimed_def)
  have e: "apply_event db0 (RecoveryInserted 1 txp) = Inr dbp"
    by (simp add: statement_defs example_defs)
  have c: "claims dbp 1 = Some (claim0\<lparr>paid_amount := Some 6000000, claim_updated_at := 1\<rparr>)"
    by (simp add: example_defs)
  have s: "recovery_transactions dbp 1 = Some txp_stored" by (simp add: example_defs)
  have v: "calculate_revenue_share dbp txp = Inr txp_stored"
    "recovery_transaction_violation txp_stored = None"
    by (simp_all add: statement_defs example_defs)
  from paid_within_claimed [of db0 "RecoveryInserted 1 txp" dbp] i0 e
  have "\<forall>cid c. claims dbp cid = Some c \<longrightarrow> paid_lte_claimed c" by blast
  with c have p: "paid_lte_claimed (claim0\<lparr>paid_amount := Some 6000000, claim_updated_at := 1\<rparr>)"
    by blast
  from paid_within_claimed [where d = dbp and i = 1 and ?r0.0 = txp_stored and tx = txp
      and r = txp_stored] s v
  have "(\<exists>x. apply_event dbp (RecoveryInserted 1 txp) = Inl x) \<and>
   apply_event dbp (RecoveryInserted 1 txp) = Inl (UniqueViolation ''recovery_transactions_pkey'')"
    by blast
  with e c p s v show ?thesis by blast
qed

subsection \<open>Appeals and the knowledge graph\<close>

lemmas kg_example_defs = claim_a_def appeal6_def appeal_rev_def appeal_rej_def db6_def
  k6a_def k6c_def k6d_def db6a_def db6c_def db6d_def db6r_def db8_def appeal_draft_def
  db8_reopened_def db0_accepted_def db0_rejected_def

lemmas kg_statement_defs = update_knowledge_graph_from_appeal_def reaches_final_status_def
  final_status_def knowledge_pattern_violation_def success_rate_def fits_int4_def
  fits_14_2_def appeal_level_key_def int_text_def nat_text.simps digit_char_def


lemma event_db6d: "apply_event db6c (AppealUpdated 6 appeal_rej) = Inr db6d"
  by (simp add: statement_defs kg_statement_defs example_defs kg_example_defs fun_eq_iff)


text \<open>
  Claim C7 fails on the schema: \<open>success_rate\<close> is the quotient rounded to four decimal
  places. After two successes in three outcomes it is 0.6667, not \<open>2 / 3\<close>.
\<close>

theorem success_rate_counterexample:
  "apply_events db6c [AppealUpdated 6 appeal_rej] = Inr db6d \<and>
   payer_knowledge_graph db6d (7, ''appeal_level_1'') = Some k6d \<and>
   success_count k6d = 2 \<and> occurrence_count k6d = 3 \<and>
   success_rate k6d = 6667 \<and>
   (of_int (success_rate k6d) / 10 ^ 4 :: rat) \<noteq> spec_success_rate k6d"
  using event_db6d
  by (simp add: kg_example_defs example_defs success_rate_def round_half_away_def
      spec_success_rate_def)

lemma round_half_away_one: "round_half_away v 1 = v"
  by (simp add: round_half_away_def) linarith

lemma round_decimal2: "round_half_away_from_zero 2 (decimal2 v) = decimal2 v"
  using round_half_away_places [of 1 v 2]
  by (simp add: round_half_away_one decimal2_def)

lemma avg_as_spec:
  assumes "0 < n + 1"
  shows "decimal2 (round_half_away (a * n + v) (n + 1)) =
         round_half_away_from_zero 2 ((decimal2 a * of_int n + decimal2 v) / of_int (n + 1))"
proof -
  have "decimal2 (round_half_away (a * n + v) (n + 1)) =
          (of_int (round_half_away (a * n + v) (n + 1)) :: rat) / 10 ^ 2"
    by (simp add: decimal2_def)
  also have "\<dots> = round_half_away_from_zero 2 (of_int (a * n + v) / of_int (n + 1) / 10 ^ 2)"
    using assms by (rule round_half_away_places)
  also have "(of_int (a * n + v) / of_int (n + 1) / 10 ^ 2 :: rat) =
             (decimal2 a * of_int n + decimal2 v) / of_int (n + 1)"
    by (simp add: decimal2_def field_simps)
  finally show ?thesis .
qed

lemma violation_none_occurrence:
  "knowledge_pattern_violation k = None \<Longrightarrow> 0 < occurrence_count k"
  by (simp add: knowledge_pattern_violation_def split: if_splits)

lemma kg_update_not_final:
  assumes "\<not> reaches_final_status old a"
  shows "update_knowledge_graph_from_appeal d old a = Inr d"
  using assms by (simp add: update_knowledge_graph_from_appeal_def split: option.splits)

lemma kg_update_final:
  assumes u: "update_knowledge_graph_from_appeal d old a = Inr d'"
    and f: "reaches_final_status old a"
  shows "\<exists>c l s k'. claims d (appeal_claim_id a) = Some c \<and> appeal_level a = Some l \<and>
           appeal_status a = Some s \<and>
           payer_knowledge_graph d' =
             (payer_knowledge_graph d)((appeal_level_key (payer_id c) l) \<mapsto> k') \<and>
           knowledge_pattern_violation k' = None \<and>
           pattern_stats k' =
             stored_stats
               (spec_aggregate
                  (map_option pattern_stats
                     (payer_knowledge_graph d (appeal_level_key (payer_id c) l)))
                  (s = accepted \<or> s = partially_accepted)
                  (decimal2 (case outcome_amount a of None \<Rightarrow> 0 | Some v \<Rightarrow> v)))"
proof -
  from f obtain s where s: "appeal_status a = Some s"
    by (auto simp: reaches_final_status_def split: option.splits)
  from u f s obtain c where c: "claims d (appeal_claim_id a) = Some c"
    by (auto simp: update_knowledge_graph_from_appeal_def split: option.splits)
  from u f s c obtain l where l: "appeal_level a = Some l"
    by (auto simp: update_knowledge_graph_from_appeal_def split: option.splits)
  let ?key = "(appeal_level_key (payer_id c) l)"
  let ?delta = "if s = accepted \<or> s = partially_accepted then 1 else 0 :: int"
  let ?amount = "case outcome_amount a of None \<Rightarrow> 0 | Some v \<Rightarrow> v"
  show ?thesis
  proof (cases "payer_knowledge_graph d ?key")
    case None
    let ?k = "\<lparr>pattern_value = (appeal_type a, generated_by a, s),
               occurrence_count = 1, success_count = ?delta,
               avg_recovery_amount = ?amount, total_recovery_amount = ?amount,
               confidence_level = 50, last_observed_at = clock d,
               kg_updated_at = clock d\<rparr>"
    from u f s c l None have v: "knowledge_pattern_violation ?k = None"
      and d': "d' = d\<lparr>payer_knowledge_graph := (payer_knowledge_graph d)(?key \<mapsto> ?k)\<rparr>"
      by (auto simp: update_knowledge_graph_from_appeal_def Let_def split: option.splits)
    have "pattern_stats ?k =
            stored_stats (spec_aggregate None (s = accepted \<or> s = partially_accepted)
               (decimal2 ?amount))"
      by (simp add: pattern_stats_def stored_stats_def spec_aggregate_def round_decimal2)
    with s c l None v d' have "claims d (appeal_claim_id a) = Some c \<and> appeal_level a = Some l \<and>
           appeal_status a = Some s \<and>
           payer_knowledge_graph d' =
             (payer_knowledge_graph d)((appeal_level_key (payer_id c) l) \<mapsto> ?k) \<and>
           knowledge_pattern_violation ?k = None \<and>
           pattern_stats ?k =
             stored_stats
               (spec_aggregate
                  (map_option pattern_stats
                     (payer_knowledge_graph d (appeal_level_key (payer_id c) l)))
                  (s = accepted \<or> s = partially_accepted)
                  (decimal2 (case outcome_amount a of None \<Rightarrow> 0 | Some v \<Rightarrow> v)))"
      by simp
    then show ?thesis by blast
  next
    case (Some k0)
    let ?k = "k0\<lparr>occurrence_count := occurrence_count k0 + 1,
                   success_count := success_count k0 + ?delta,
                   avg_recovery_amount :=
                     round_half_away (avg_recovery_amount k0 * occurrence_count k0 + ?amount)
                       (occurrence_count k0 + 1),
                   total_recovery_amount := total_recovery_amount k0 + ?amount,
                   last_observed_at := clock d, kg_updated_at := clock d\<rparr>"
    from u f s c l Some have v: "knowledge_pattern_violation ?k = None"
      and d': "d' = d\<lparr>payer_knowledge_graph := (payer_knowledge_graph d)(?key \<mapsto> ?k)\<rparr>"
      by (auto simp: update_knowledge_graph_from_appeal_def Let_def
               split: option.splits if_splits)
    from violation_none_occurrence [OF v] have pos: "0 < occurrence_count k0 + 1" by simp
    have "pattern_stats ?k =
            stored_stats (spec_aggregate (Some (pattern_stats k0))
               (s = accepted \<or> s = partially_accepted) (decimal2 ?amount))"
      using avg_as_spec [OF pos, of "avg_recovery_amount k0" ?amount]
      by (simp add: pattern_stats_def stored_stats_def spec_aggregate_def decimal2_def
          add_divide_distrib)
    with s c l Some v d' have "claims d (appeal_claim_id a) = Some c \<and> appeal_level a = Some l \<and>
           appeal_status a = Some s \<and>
           payer_knowledge_graph d' =
             (payer_knowledge_graph d)((appeal_level_key (payer_id c) l) \<mapsto> ?k) \<and>
           knowledge_pattern_violation ?k = None \<and>
           pattern_stats ?k =
             stored_stats
               (spec_aggregate
                  (map_option pattern_stats
                     (payer_knowledge_graph d (appeal_level_key (payer_id c) l)))
                  (s = accepted \<or> s = partially_accepted)
                  (decimal2 (case outcome_amount a of None \<Rightarrow> 0 | Some v \<Rightarrow> v)))"
      by simp
    then show ?thesis by blast
  qed
qed

lemma appeal_trigger_frame:
  assumes "auto_update_claim_status_on_appeal d old a = Inr d'"
  shows "payer_knowledge_graph d' = payer_knowledge_graph d"
    and "appeals d' = appeals d"
    and "map_option payer_id (claims d' cid) = map_option payer_id (claims d cid)"
proof -
  from assms obtain d1 where
    d1: "d1 = d \<or> update_claims d (appeal_claim_id a) (\<lambda>c. True)
                   (\<lambda>c. c\<lparr>claim_status := Some appealed\<rparr>) = Inr d1"
    and d': "d' = d1 \<or> update_claims d1 (appeal_claim_id a) (\<lambda>c. True)
                 (\<lambda>c. c\<lparr>claim_status := Some recovered,
                        approved_amount :=
                          (if appeal_status a = Some accepted
                           then Some (claimed_amount c) else outcome_amount a)\<rparr>) = Inr d'"
    by (auto simp: auto_update_claim_status_on_appeal_def split: if_splits sum.splits)
  from d1 have 1: "payer_knowledge_graph d1 = payer_knowledge_graph d" "appeals d1 = appeals d"
    using update_claims_frame by auto
  from d' have 2: "payer_knowledge_graph d' = payer_knowledge_graph d1" "appeals d' = appeals d1"
    using update_claims_frame by auto
  from 1 2 show "payer_knowledge_graph d' = payer_knowledge_graph d" "appeals d' = appeals d"
    by simp_all
  have p: "map_option payer_id (claims y cid) = map_option payer_id (claims x cid)"
    if "y = x \<or> update_claims x t (\<lambda>c. True) g = Inr y"
      and "\<And>c. payer_id (g c) = payer_id c" for x y t g
    using that(1)
  proof
    assume "y = x" then show ?thesis by simp
  next
    assume "update_claims x t (\<lambda>c. True) g = Inr y"
    from update_claims_cases [OF this] that(2) show ?thesis
      by (auto simp: new_claim_row_fields)
  qed
  from p [OF d1] p [OF d'] show "map_option payer_id (claims d' cid) = map_option payer_id (claims d cid)"
    by simp
qed



lemma success_rate_as_spec:
  assumes "0 < occurrence_count k"
  shows "(of_int (success_rate k) / 10 ^ 4 :: rat) =
         round_half_away_from_zero 4 (spec_success_rate k)"
proof -
  have "(of_int (success_rate k) / 10 ^ 4 :: rat) =
          of_int (round_half_away (success_count k * 10000) (occurrence_count k)) / 10 ^ 4"
    using assms by (simp add: success_rate_def)
  also have "\<dots> = round_half_away_from_zero 4
                     (of_int (success_count k * 10000) / of_int (occurrence_count k) / 10 ^ 4)"
    using assms by (rule round_half_away_places)
  also have "(of_int (success_count k * 10000) / of_int (occurrence_count k) / 10 ^ 4 :: rat) =
             spec_success_rate k"
    by (simp add: spec_success_rate_def)
  finally show ?thesis .
qed

lemma kg_update_counts:
  assumes u: "update_knowledge_graph_from_appeal d old a = Inr d'"
    and inv: "\<forall>key k. payer_knowledge_graph d key = Some k \<longrightarrow>
                0 < occurrence_count k \<and> success_count k \<le> occurrence_count k"
  shows "\<forall>key k. payer_knowledge_graph d' key = Some k \<longrightarrow>
           0 < occurrence_count k \<and> success_count k \<le> occurrence_count k"
proof (cases "reaches_final_status old a")
  case False
  with u kg_update_not_final [of old a d] inv show ?thesis by simp
next
  case True
  from kg_update_final [OF u True] obtain c l s k' where
    r0: "claims d (appeal_claim_id a) = Some c" "appeal_level a = Some l"
        "appeal_status a = Some s" and
    r: "payer_knowledge_graph d' =
          (payer_knowledge_graph d)((appeal_level_key (payer_id c) l) \<mapsto> k')"
       "knowledge_pattern_violation k' = None"
       "pattern_stats k' =
          stored_stats
            (spec_aggregate
               (map_option pattern_stats
                  (payer_knowledge_graph d (appeal_level_key (payer_id c) l)))
               (s = accepted \<or> s = partially_accepted)
               (decimal2 (case outcome_amount a of None \<Rightarrow> 0 | Some v \<Rightarrow> v)))"
    by auto
  have "success_count k' \<le> occurrence_count k'"
  proof (cases "payer_knowledge_graph d (appeal_level_key (payer_id c) l)")
    case None
    with r(3) have "occurrence_count k' = 1"
      "success_count k' = (if s = accepted \<or> s = partially_accepted then 1 else 0)"
      by (simp_all add: pattern_stats_def stored_stats_def spec_aggregate_def)
    then show ?thesis by simp
  next
    case (Some k0)
    with r(3) have "occurrence_count k' = occurrence_count k0 + 1"
      "success_count k' = success_count k0 + (if s = accepted \<or> s = partially_accepted then 1 else 0)"
      by (simp_all add: pattern_stats_def stored_stats_def spec_aggregate_def)
    moreover from inv Some have "success_count k0 \<le> occurrence_count k0" by blast
    ultimately show ?thesis by simp
  qed
  with violation_none_occurrence [OF r(2)] r(1) inv show ?thesis by auto
qed

lemma apply_event_kg:
  assumes "apply_event d e = Inr d'"
  shows "payer_knowledge_graph d' = payer_knowledge_graph d \<or>
         (\<exists>d2 old a. payer_knowledge_graph d2 = payer_knowledge_graph d \<and>
            update_knowledge_graph_from_appeal d2 old a = Inr d')"
proof (cases e)
  case (DenialRecorded i dn)
  with assms have "auto_update_claim_status_on_denial
      (d\<lparr>claim_denials := (claim_denials d)(i \<mapsto> dn)\<rparr>) dn = Inr d'"
    by (simp add: insert_claim_denial_def split: if_splits)
  from update_claims_frame(2) [OF this [unfolded auto_update_claim_status_on_denial_def]]
  show ?thesis by simp
next
  case (AppealInserted i a)
  with assms have "insert_appeal d i a = Inr d'" by simp
  from insert_appeal_claims [OF this] appeal_trigger_frame(1) show ?thesis by metis
next
  case (AppealUpdated i a)
  with assms have u: "update_appeal d i a = Inr d'" by simp
  show ?thesis
  proof (cases "appeals d i")
    case None
    with u show ?thesis by (simp add: update_appeal_def)
  next
    case (Some old)
    from update_appeal_steps [OF u Some] appeal_trigger_frame(1) show ?thesis by metis
  qed
next
  case (RecoveryInserted i tx)
  with assms have "insert_recovery_transaction d i tx = Inr d'" by simp
  then obtain r where "update_claim_on_recovery
       (d\<lparr>recovery_transactions := (recovery_transactions d)(i \<mapsto> r)\<rparr>) r = Inr d' \<or>
     d' = d\<lparr>recovery_transactions := (recovery_transactions d)(i \<mapsto> r)\<rparr>"
    by (auto simp: insert_recovery_transaction_def Let_def
             split: sum.splits option.splits if_splits)
  with update_claim_on_recovery_frame(2) show ?thesis by fastforce
next
  case (RecoveryUpdated i tx b)
  with assms have u: "update_recovery_transaction d i tx b = Inr d'" by simp
  let ?r = "tx\<lparr>recovery_updated_at := clock d\<rparr>"
  from u have "d' = d \<or> update_claim_on_recovery
       (d\<lparr>recovery_transactions := (recovery_transactions d)(i \<mapsto> ?r)\<rparr>) ?r = Inr d' \<or>
     d' = d\<lparr>recovery_transactions := (recovery_transactions d)(i \<mapsto> ?r)\<rparr>"
    by (auto simp: update_recovery_transaction_def Let_def
             split: sum.splits option.splits if_splits)
  with update_claim_on_recovery_frame(2) show ?thesis by fastforce
qed

lemma apply_events_counts:
  assumes "apply_events d es = Inr d'"
    and "\<forall>key k. payer_knowledge_graph d key = Some k \<longrightarrow>
                0 < occurrence_count k \<and> success_count k \<le> occurrence_count k"
  shows "\<forall>key k. payer_knowledge_graph d' key = Some k \<longrightarrow>
           0 < occurrence_count k \<and> success_count k \<le> occurrence_count k"
  using assms
proof (induction es arbitrary: d)
  case Nil
  then show ?case by simp
next
  case (Cons e es)
  from Cons.prems(1) obtain d1 where
    e: "apply_event d e = Inr d1" and es: "apply_events d1 es = Inr d'"
    by (auto split: sum.splits)
  from apply_event_kg [OF e] kg_update_counts Cons.prems(2)
  have "\<forall>key k. payer_knowledge_graph d1 key = Some k \<longrightarrow>
           0 < occurrence_count k \<and> success_count k \<le> occurrence_count k"
    by (metis (no_types, lifting))
  with Cons.IH [OF es] show ?case by blast
qed

text \<open>
  Claim C7, amended. If every pattern has \<open>0 < occurrence_count\<close> and
  \<open>success_count \<le> occurrence_count\<close> (as in the empty table), then after any
  sequence of events that succeeds every pattern still has, and its generated
  \<open>success_rate\<close> is \<open>success_count / occurrence_count\<close> rounded half away from zero
  to four decimal places.
\<close>

theorem success_count_and_rate:
  "(\<forall>key k. payer_knowledge_graph d key = Some k \<longrightarrow>
       0 < occurrence_count k \<and> success_count k \<le> occurrence_count k) \<and>
   apply_events d es = Inr d' \<longrightarrow>
     (\<forall>key k. payer_knowledge_graph d' key = Some k \<longrightarrow>
        0 < occurrence_count k \<and> success_count k \<le> occurrence_count k \<and>
        (of_int (success_rate k) / 10 ^ 4 :: rat) =
          round_half_away_from_zero 4 (spec_success_rate k))"
  using apply_events_counts [of d es d'] success_rate_as_spec by blast

text \<open>
  C7 on the example database: four appeal updates from an empty knowledge graph.
\<close>

theorem success_count_and_rate_witness:
  "apply_events db6 [AppealUpdated 5 appeal_acc, AppealUpdated 5 appeal_rev,
     AppealUpdated 5 appeal_acc, AppealUpdated 6 appeal_rej] = Inr db6d \<and>
   payer_knowledge_graph db6d (7, ''appeal_level_1'') = Some k6d \<and>
   0 < occurrence_count k6d \<and> success_count k6d \<le> occurrence_count k6d \<and>
   (of_int (success_rate k6d) / 10 ^ 4 :: rat) =
      round_half_away_from_zero 4 (spec_success_rate k6d)"
proof -
  have i: "\<forall>key k. payer_knowledge_graph db6 key = Some k \<longrightarrow>
       0 < occurrence_count k \<and> success_count k \<le> occurrence_count k"
    by (simp add: kg_example_defs example_defs)
  have e: "apply_events db6 [AppealUpdated 5 appeal_acc, AppealUpdated 5 appeal_rev,
     AppealUpdated 5 appeal_acc, AppealUpdated 6 appeal_rej] = Inr db6d"
    by (simp add: statement_defs kg_statement_defs example_defs kg_example_defs fun_eq_iff)
  have k: "payer_knowledge_graph db6d (7, ''appeal_level_1'') = Some k6d"
    by (simp add: kg_example_defs)
  from success_count_and_rate [of db6 _ db6d] i e k
  have "0 < occurrence_count k6d \<and> success_count k6d \<le> occurrence_count k6d \<and>
   (of_int (success_rate k6d) / 10 ^ 4 :: rat) =
      round_half_away_from_zero 4 (spec_success_rate k6d)"
    by blast
  with e k show ?thesis by blast
qed









end
